theory Spec2Isabelle
  imports Main "HOL-Library.Multiset"
begin

section \<open>RPC error mapping (package api)\<close>

text \<open>
  A Go \<^verbatim>\<open>error\<close> is an interface value. The two dynamic types that reach
  \<^verbatim>\<open>TryMakeConcernedError\<close> are the plain string errors made by \<^verbatim>\<open>errors.New\<close>
  and the struct \<^verbatim>\<open>JsonRpc2Error {Message; Code}\<close>. The value \<^verbatim>\<open>nil\<close> is \<open>None\<close>.
\<close>

datatype go_error =
    ErrorString string
  | JsonRpc2Error string int

fun Error :: "go_error \<Rightarrow> string" where
  "Error (ErrorString m) = m"
| "Error (JsonRpc2Error m c) = m"

fun ErrorCode :: "go_error \<Rightarrow> int" where
  "ErrorCode (JsonRpc2Error m c) = c"
| "ErrorCode (ErrorString m) = 0"

text \<open>
  The messages of \<^verbatim>\<open>ledgererrors.ErrBalanceNotEnough\<close>, \<^verbatim>\<open>walleterrors.ErrDecryptKey\<close>
  and \<^verbatim>\<open>walleterrors.ErrAlreadyLocked\<close> are declared in packages that are not part of
  the sources at hand; they are parameters of the model.
\<close>

record error_messages =
  msgBalanceNotEnough :: string
  msgDecryptKey :: string
  msgAlreadyLocked :: string

definition ErrBalanceNotEnough :: "error_messages \<Rightarrow> go_error" where
  "ErrBalanceNotEnough ms = JsonRpc2Error (msgBalanceNotEnough ms) 5001"

definition ErrDecryptKey :: "error_messages \<Rightarrow> go_error" where
  "ErrDecryptKey ms = JsonRpc2Error (msgDecryptKey ms) 4001"

definition AddressAlreadyUnLocked :: "error_messages \<Rightarrow> go_error" where
  "AddressAlreadyUnLocked ms = JsonRpc2Error (msgAlreadyLocked ms) 4002"

text \<open>\<^verbatim>\<open>init\<close>: three stores into an empty map, in the order of the source.\<close>

definition concernedErrorMap :: "error_messages \<Rightarrow> (string \<rightharpoonup> go_error)" where
  "concernedErrorMap ms =
     (((Map.empty
        (Error (ErrDecryptKey ms) \<mapsto> ErrDecryptKey ms))
        (Error (AddressAlreadyUnLocked ms) \<mapsto> AddressAlreadyUnLocked ms))
        (Error (ErrBalanceNotEnough ms) \<mapsto> ErrBalanceNotEnough ms))"

definition TryMakeConcernedError ::
  "error_messages \<Rightarrow> go_error option \<Rightarrow> go_error option \<times> bool" where
  "TryMakeConcernedError ms err =
     (case err of
        None \<Rightarrow> (None, False)
      | Some e \<Rightarrow>
          (case concernedErrorMap ms (Error e) of
             Some rerr \<Rightarrow> (Some rerr, True)
           | None \<Rightarrow> (Some e, False)))"

definition example_messages :: error_messages where
  "example_messages =
     \<lparr> msgBalanceNotEnough = ''the balance is not enough'',
       msgDecryptKey = ''error decrypting key'',
       msgAlreadyLocked = ''the address was previously unlocked'' \<rparr>"

section \<open>Contract-dispatch scheduler (package unconfirmed)\<close>

subsection \<open>External collaborators\<close>

type_synonym Address = string
type_synonym Hash = string
type_synonym Gid = string

text \<open>
  \<^verbatim>\<open>ledger.AccountBlock\<close>, reduced to the fields the scheduler reads: the sender
  (\<^verbatim>\<open>AccountAddress\<close>), the receiver (\<^verbatim>\<open>ToAddress\<close>) and the block's own hash.
\<close>

record AccountBlock =
  AccountAddress :: Address
  ToAddress :: Address
  BlockHash :: Hash

text \<open>\<^verbatim>\<open>producer.AccountStartEvent\<close>, the fields read here.\<close>

record AccountStartEvent =
  evGid :: Gid
  evAddress :: Address
  evSnapshotHash :: Hash

text \<open>
  The backing store, the quota accessor, the hash of the blacklist key and the two size
  constants are declared outside the sources at hand; the model takes them as parameters.
  A Go slice result is an \<open>option\<close>: \<open>None\<close> is the \<^verbatim>\<open>nil\<close> slice, \<open>Some []\<close> an empty
  slice that is not \<^verbatim>\<open>nil\<close>. An \<^verbatim>\<open>error\<close> result is \<open>None\<close> for \<^verbatim>\<open>nil\<close>.
\<close>

record env =
  CONTRACT_TASK_SIZE :: nat
  CONTRACT_FETCH_SIZE :: nat
  GetAddrListByGid :: "Gid \<Rightarrow> Address list option \<times> go_error option"
  GetUnconfirmedBlocks :: "nat \<Rightarrow> nat \<Rightarrow> nat \<Rightarrow> Address \<Rightarrow> AccountBlock list option \<times> go_error option"
  GetAccountQuota :: "Address \<Rightarrow> Hash \<Rightarrow> nat"
  DataListHash :: "Address \<Rightarrow> Address \<Rightarrow> Hash"

subsection \<open>Two-level priority queue (package model)\<close>

text \<open>
  Modelled from the spec: package \<^verbatim>\<open>model\<close> (the types \<^verbatim>\<open>FromItem\<close>, \<^verbatim>\<open>ToItem\<close>,
  \<^verbatim>\<open>PriorityToQueue\<close>, the method \<^verbatim>\<open>InsertNew\<close> and the \<^verbatim>\<open>heap.Interface\<close> methods
  that \<^verbatim>\<open>heap.Pop\<close> drives) is missing from the sources. Following section 4.3 of the
  specification, an item carries its sender priority and a bucket its receiver priority,
  fixed when the bucket is created; both carry the insertion sequence number that
  breaks ties (earliest inserted first).
\<close>

record FromItem =
  fBlock :: AccountBlock
  fPriority :: nat
  fSeq :: nat

record ToItem =
  tAddress :: Address
  tPriority :: nat
  tSeq :: nat
  tValue :: "FromItem list"

record PriorityToQueue =
  toItems :: "ToItem list"
  seqCounter :: nat

text \<open>
  Modelled from the spec: the order of both heaps. \<open>precedes p s p' s'\<close> holds when the
  element with priority \<open>p\<close> and sequence number \<open>s\<close> leaves the heap before the one with
  \<open>p'\<close> and \<open>s'\<close>: higher priority first, equal priorities by insertion order.
\<close>

definition precedes :: "nat \<Rightarrow> nat \<Rightarrow> nat \<Rightarrow> nat \<Rightarrow> bool" where
  "precedes p s p' s' = (p' < p \<or> (p' = p \<and> s < s'))"

definition from_less :: "FromItem \<Rightarrow> FromItem \<Rightarrow> bool" where
  "from_less a b = precedes (fPriority a) (fSeq a) (fPriority b) (fSeq b)"

definition to_less :: "ToItem \<Rightarrow> ToItem \<Rightarrow> bool" where
  "to_less a b = precedes (tPriority a) (tSeq a) (tPriority b) (tSeq b)"

fun heap_top :: "('a \<Rightarrow> 'a \<Rightarrow> bool) \<Rightarrow> 'a \<Rightarrow> 'a list \<Rightarrow> 'a" where
  "heap_top lt x [] = x"
| "heap_top lt x (y # ys) = heap_top lt (if lt y x then y else x) ys"

text \<open>
  Modelled from the spec: \<^verbatim>\<open>heap.Pop\<close> on a heap with the order \<open>lt\<close> removes and
  returns the element that precedes all others. On an empty heap Go's \<^verbatim>\<open>heap.Pop\<close>
  indexes out of range; the model returns \<open>None\<close> there.
\<close>

fun heap_Pop :: "('a \<Rightarrow> 'a \<Rightarrow> bool) \<Rightarrow> 'a list \<Rightarrow> ('a \<times> 'a list) option" where
  "heap_Pop lt [] = None"
| "heap_Pop lt (x # xs) = (let m = heap_top lt x xs in Some (m, remove1 m (x # xs)))"

text \<open>
  Modelled from the spec: \<^verbatim>\<open>InsertNew(item, receiverPriority, senderPriority)\<close>. If no
  bucket exists for the item's receiver, one is created with the given receiver
  priority; the item is put into the bucket of its receiver with its sender priority.
\<close>

fun insert_bucket :: "ToItem list \<Rightarrow> Address \<Rightarrow> nat \<Rightarrow> nat \<Rightarrow> FromItem \<Rightarrow> ToItem list" where
  "insert_bucket [] to toP s item =
     [\<lparr> tAddress = to, tPriority = toP, tSeq = s, tValue = [item] \<rparr>]"
| "insert_bucket (t # ts) to toP s item =
     (if tAddress t = to then t\<lparr> tValue := tValue t @ [item] \<rparr> # ts
      else t # insert_bucket ts to toP s item)"

definition InsertNew :: "PriorityToQueue \<Rightarrow> AccountBlock \<Rightarrow> nat \<Rightarrow> nat \<Rightarrow> PriorityToQueue" where
  "InsertNew q v toQuota fromQuota =
     (let s = seqCounter q;
          item = \<lparr> fBlock = v, fPriority = fromQuota, fSeq = s \<rparr>
      in \<lparr> toItems = insert_bucket (toItems q) (ToAddress v) toQuota s item,
           seqCounter = Suc s \<rparr>)"

text \<open>Modelled from the spec: \<^verbatim>\<open>Len()\<close> is the total number of queued items.\<close>

definition Len :: "PriorityToQueue \<Rightarrow> nat" where
  "Len q = sum_list (map (\<lambda>t. length (tValue t)) (toItems q))"

definition empty_queue :: PriorityToQueue where
  "empty_queue = \<lparr> toItems = [], seqCounter = 0 \<rparr>"

text \<open>The blocks held in the queue, bucket by bucket.\<close>

definition queued :: "PriorityToQueue \<Rightarrow> AccountBlock list" where
  "queued q = concat (map (\<lambda>t. map fBlock (tValue t)) (toItems q))"

subsection \<open>The scheduler\<close>

datatype status = Create | Start | Stop

datatype chan = Open | Closed

datatype go_panic =
    NilPointerDereference
  | CloseOfClosedChannel
  | SendOnClosedChannel
  | IndexOutOfRange

text \<open>
  \<^verbatim>\<open>ContractWorker\<close>. The three channels are unbuffered; of a channel the model keeps
  whether it has been closed. A slot of \<^verbatim>\<open>contractTasks\<close> is a pointer to a task
  (\<open>Some\<close> of the task's index) or \<^verbatim>\<open>nil\<close>; \<^verbatim>\<open>priorityToQueue\<close> is a pointer as well.
  The blacklist is keyed by the hash of the pair.
\<close>

record ContractWorker =
  gid :: Gid
  address :: Address
  accEvent :: AccountStartEvent
  contractAddressList :: "Address list"
  status :: status
  isSleep :: bool
  newUnconfirmedTxAlarm :: chan
  breaker :: chan
  stopDispatcherListener :: chan
  contractTasks :: "nat option list"
  priorityToQueue :: "PriorityToQueue option"
  blackList :: "Hash \<rightharpoonup> bool"
  lastAddrIndex :: nat

text \<open>
  \<^verbatim>\<open>NewContractWorker\<close> returns a pair (worker, error), as in Go. The struct literal
  gives no value to \<^verbatim>\<open>priorityToQueue\<close> and \<^verbatim>\<open>lastAddrIndex\<close>, which are therefore
  \<^verbatim>\<open>nil\<close> and 0, and \<^verbatim>\<open>make([]*ContractTask, CONTRACT_TASK_SIZE)\<close> is a slice of
  \<^verbatim>\<open>nil\<close> pointers.
\<close>

definition NewContractWorker :: "env \<Rightarrow> AccountStartEvent \<Rightarrow> ContractWorker option \<times> go_error option" where
  "NewContractWorker e ev =
     (case GetAddrListByGid e (evGid ev) of
        (addressList, Some err) \<Rightarrow> (None, Some err)
      | (addressList, None) \<Rightarrow>
          (case addressList of
             None \<Rightarrow> (None, Some (ErrorString ''newContractWorker addressList nil''))
           | Some [] \<Rightarrow> (None, Some (ErrorString ''newContractWorker addressList nil''))
           | Some (a # as) \<Rightarrow>
               (Some \<lparr> gid = evGid ev,
                       address = evAddress ev,
                       accEvent = ev,
                       contractAddressList = a # as,
                       status = Create,
                       isSleep = False,
                       newUnconfirmedTxAlarm = Open,
                       breaker = Open,
                       stopDispatcherListener = Open,
                       contractTasks = replicate (CONTRACT_TASK_SIZE e) None,
                       priorityToQueue = None,
                       blackList = Map.empty,
                       lastAddrIndex = 0 \<rparr>,
                None)))"

subsection \<open>Blacklist\<close>

definition addIntoBlackList :: "env \<Rightarrow> ContractWorker \<Rightarrow> Address \<Rightarrow> Address \<Rightarrow> ContractWorker" where
  "addIntoBlackList e w from to = w\<lparr> blackList := (blackList w)(DataListHash e from to \<mapsto> True) \<rparr>"

definition deleteBlackListItem :: "env \<Rightarrow> ContractWorker \<Rightarrow> Address \<Rightarrow> Address \<Rightarrow> ContractWorker" where
  "deleteBlackListItem e w from to = w\<lparr> blackList := (blackList w)(DataListHash e from to := None) \<rparr>"

definition isInBlackList :: "env \<Rightarrow> (Hash \<rightharpoonup> bool) \<Rightarrow> Address \<Rightarrow> Address \<Rightarrow> bool" where
  "isInBlackList e bl from to = (bl (DataListHash e from to) \<noteq> None)"

subsection \<open>Paging fetch\<close>

text \<open>
  The body of \<^verbatim>\<open>for _, v := range blockList\<close>, on the pair of the queue and the
  counter \<^verbatim>\<open>count\<close> (here \<open>cnt\<close>); \<open>sh\<close> is \<^verbatim>\<open>w.accEvent.SnapshotHash\<close>.
\<close>

fun insert_page ::
  "env \<Rightarrow> (Hash \<rightharpoonup> bool) \<Rightarrow> Hash \<Rightarrow> AccountBlock list \<Rightarrow> PriorityToQueue \<times> nat \<Rightarrow> PriorityToQueue \<times> nat" where
  "insert_page e bl sh [] qc = qc"
| "insert_page e bl sh (v # vs) (q, cnt) =
     (if \<not> isInBlackList e bl (AccountAddress v) (ToAddress v)
      then (let fromQuota = GetAccountQuota e (AccountAddress v) sh;
                toQuota = GetAccountQuota e (ToAddress v) sh
            in insert_page e bl sh vs (InsertNew q v toQuota fromQuota, cnt + 1))
      else insert_page e bl sh vs (q, cnt))"

text \<open>
  The inner \<^verbatim>\<open>for { ... }\<close> of \<^verbatim>\<open>FetchNewFromDb\<close> for one address. Nothing bounds the
  number of pages, so the loop is a partial function: \<open>None\<close> means that it never
  leaves.
\<close>

partial_function (option) page_loop ::
  "env \<Rightarrow> (Hash \<rightharpoonup> bool) \<Rightarrow> Hash \<Rightarrow> Address \<Rightarrow> nat \<Rightarrow> nat \<Rightarrow> PriorityToQueue \<Rightarrow> PriorityToQueue option" where
  "page_loop e bl sh a cnt nextIndex q =
     (case GetUnconfirmedBlocks e nextIndex 1 (CONTRACT_FETCH_SIZE e) a of
        (None, err) \<Rightarrow> Some q
      | (Some blockList, Some err) \<Rightarrow> Some q
      | (Some blockList, None) \<Rightarrow>
          (case insert_page e bl sh blockList (q, cnt) of
             (q', cnt') \<Rightarrow>
               if cnt' < CONTRACT_FETCH_SIZE e
               then page_loop e bl sh a cnt' (nextIndex + 1) q'
               else Some q'))"

text \<open>
  The outer \<^verbatim>\<open>for ; i < len(w.contractAddressList) && (i-w.lastAddrIndex) < CONTRACT_TASK_SIZE; i++\<close>;
  \<open>start\<close> is \<^verbatim>\<open>w.lastAddrIndex\<close>. It returns the final \<open>i\<close> and the queue.
\<close>

function addr_loop ::
  "env \<Rightarrow> (Hash \<rightharpoonup> bool) \<Rightarrow> Hash \<Rightarrow> Address list \<Rightarrow> nat \<Rightarrow> nat \<Rightarrow> PriorityToQueue \<Rightarrow> (nat \<times> PriorityToQueue) option" where
  "addr_loop e bl sh addrs start i q =
     (if i < length addrs \<and> i - start < CONTRACT_TASK_SIZE e
      then (case page_loop e bl sh (addrs ! i) 0 0 q of
              None \<Rightarrow> None
            | Some q' \<Rightarrow> addr_loop e bl sh addrs start (i + 1) q')
      else Some (i, q))"
  by pat_completeness auto
termination
  by (relation "measure (\<lambda>(e, bl, sh, addrs, start, i, q). length addrs - i)") auto

declare addr_loop.simps [simp del]

text \<open>
  The same two loops when \<^verbatim>\<open>w.priorityToQueue\<close> is \<^verbatim>\<open>nil\<close>. The loops go through the
  pointer only in \<^verbatim>\<open>w.priorityToQueue.InsertNew\<close>. The methods of \<^verbatim>\<open>*PriorityToQueue\<close>
  are missing from the sources; \<^verbatim>\<open>InsertNew\<close> through a \<^verbatim>\<open>nil\<close> pointer is taken to
  panic. So the first item that is not blacklisted ends the scan with a panic, and as
  long as there is none, \<^verbatim>\<open>count\<close> stays 0.
\<close>

partial_function (option) page_loop_nil ::
  "env \<Rightarrow> (Hash \<rightharpoonup> bool) \<Rightarrow> Address \<Rightarrow> nat \<Rightarrow> (go_panic + unit) option" where
  "page_loop_nil e bl a nextIndex =
     (case GetUnconfirmedBlocks e nextIndex 1 (CONTRACT_FETCH_SIZE e) a of
        (None, err) \<Rightarrow> Some (Inr ())
      | (Some blockList, Some err) \<Rightarrow> Some (Inr ())
      | (Some blockList, None) \<Rightarrow>
          if list_ex (\<lambda>v. \<not> isInBlackList e bl (AccountAddress v) (ToAddress v)) blockList
          then Some (Inl NilPointerDereference)
          else if 0 < CONTRACT_FETCH_SIZE e
               then page_loop_nil e bl a (nextIndex + 1)
               else Some (Inr ()))"

function addr_loop_nil ::
  "env \<Rightarrow> (Hash \<rightharpoonup> bool) \<Rightarrow> Address list \<Rightarrow> nat \<Rightarrow> nat \<Rightarrow> (go_panic + nat) option" where
  "addr_loop_nil e bl addrs start i =
     (if i < length addrs \<and> i - start < CONTRACT_TASK_SIZE e
      then (case page_loop_nil e bl (addrs ! i) 0 of
              None \<Rightarrow> None
            | Some (Inl p) \<Rightarrow> Some (Inl p)
            | Some (Inr u) \<Rightarrow> addr_loop_nil e bl addrs start (i + 1))
      else Some (Inr i))"
  by pat_completeness auto
termination
  by (relation "measure (\<lambda>(e, bl, addrs, start, i). length addrs - i)") auto

declare addr_loop_nil.simps [simp del]

text \<open>
  \<^verbatim>\<open>FetchNewFromDb\<close>: the loops, then the update of the cursor and the boolean. The
  result is \<open>None\<close> when a paging loop never ends, a panic when \<^verbatim>\<open>InsertNew\<close> is called
  through a \<^verbatim>\<open>nil\<close> queue pointer, and otherwise the boolean with the new state.
\<close>

definition FetchNewFromDb :: "env \<Rightarrow> ContractWorker \<Rightarrow> (go_panic + bool \<times> ContractWorker) option" where
  "FetchNewFromDb e w =
     (case priorityToQueue w of
        None \<Rightarrow>
          (case addr_loop_nil e (blackList w) (contractAddressList w) (lastAddrIndex w) (lastAddrIndex w) of
             None \<Rightarrow> None
           | Some (Inl p) \<Rightarrow> Some (Inl p)
           | Some (Inr i) \<Rightarrow>
               if i \<ge> length (contractAddressList w)
               then Some (Inr (True, w\<lparr> lastAddrIndex := 0 \<rparr>))
               else Some (Inr (False, w\<lparr> lastAddrIndex := i \<rparr>)))
      | Some q \<Rightarrow>
          (case addr_loop e (blackList w) (evSnapshotHash (accEvent w)) (contractAddressList w)
                  (lastAddrIndex w) (lastAddrIndex w) q of
             None \<Rightarrow> None
           | Some (i, q') \<Rightarrow>
               if i \<ge> length (contractAddressList w)
               then Some (Inr (True, w\<lparr> priorityToQueue := Some q', lastAddrIndex := 0 \<rparr>))
               else Some (Inr (False, w\<lparr> priorityToQueue := Some q', lastAddrIndex := i \<rparr>))))"

subsection \<open>Dispatch callback\<close>

text \<open>
  \<^verbatim>\<open>for !w.FetchNewFromDb() { if w.priorityToQueue.Len() != 0 { break } }\<close>. As for
  \<^verbatim>\<open>InsertNew\<close>, the call of \<^verbatim>\<open>Len()\<close> through a \<^verbatim>\<open>nil\<close> queue pointer is taken to
  panic, here and in \<^verbatim>\<open>dispatchTask\<close>, whose first statement after the lock it is.
\<close>

partial_function (option) fetch_until ::
  "env \<Rightarrow> ContractWorker \<Rightarrow> (go_panic + ContractWorker) option" where
  "fetch_until e w =
     (case FetchNewFromDb e w of
        None \<Rightarrow> None
      | Some (Inl p) \<Rightarrow> Some (Inl p)
      | Some (Inr (done, w')) \<Rightarrow>
          if done then Some (Inr w')
          else (case priorityToQueue w' of
                  None \<Rightarrow> Some (Inl NilPointerDereference)
                | Some q' \<Rightarrow> if Len q' \<noteq> 0 then Some (Inr w') else fetch_until e w'))"

text \<open>
  The part of \<^verbatim>\<open>dispatchTask\<close> after the fetch loop: the second test of the length,
  \<^verbatim>\<open>heap.Pop\<close> on the top level, and the loop over the popped bucket, which returns in
  its first iteration. The popped bucket is a local variable; the state keeps the top
  level without it.
\<close>

definition pop_task :: "ContractWorker \<Rightarrow> go_panic + FromItem option \<times> ContractWorker" where
  "pop_task w =
     (case priorityToQueue w of
        None \<Rightarrow> Inl NilPointerDereference
      | Some q \<Rightarrow>
          if Len q = 0 then Inr (None, w)
          else (case heap_Pop to_less (toItems q) of
                  None \<Rightarrow> Inl IndexOutOfRange
                | Some (tItem, rest) \<Rightarrow>
                    (let w' = w\<lparr> priorityToQueue := Some (q\<lparr> toItems := rest \<rparr>) \<rparr>
                     in if 0 < length (tValue tItem)
                        then (case heap_Pop from_less (tValue tItem) of
                                None \<Rightarrow> Inl IndexOutOfRange
                              | Some (fItem, others) \<Rightarrow> Inr (Some fItem, w'))
                        else Inr (None, w'))))"

definition dispatchTask ::
  "env \<Rightarrow> ContractWorker \<Rightarrow> nat \<Rightarrow> (go_panic + FromItem option \<times> ContractWorker) option" where
  "dispatchTask e w index =
     (case priorityToQueue w of
        None \<Rightarrow> Some (Inl NilPointerDereference)
      | Some q \<Rightarrow>
          (case (if Len q = 0 then fetch_until e w else Some (Inr w)) of
             None \<Rightarrow> None
           | Some (Inl p) \<Rightarrow> Some (Inl p)
           | Some (Inr w') \<Rightarrow> Some (pop_task w')))"

subsection \<open>Lifecycle\<close>

text \<open>
  \<^verbatim>\<open>Start\<close> and \<^verbatim>\<open>Stop\<close> act on the subscription list of the backing store, on the
  worker tasks, on goroutines and on channels. The model returns the new scheduler
  state together with the list of these actions, in program order. A blocking send or
  receive on an unbuffered channel is recorded as one action: where a dispatch loop has
  been spawned, the model describes the run in which it takes part in the rendezvous.
  Closing a closed channel and sending on a closed channel panic, as Go defines it.
\<close>

datatype event =
    AddContractLis Gid
  | RemoveContractLis Gid
  | NewContractTask nat
  | TaskStart nat
  | TaskStop "nat option"
  | GoWaitingNewBlock
  | SendNewUnconfirmedTxAlarm
  | SendBreaker
  | ReceiveStopDispatcherListener
  | CloseNewUnconfirmedTxAlarm
  | CloseStopDispatcherListener
  | WaitGroupWait

definition NewUnconfirmedTxAlarm :: "ContractWorker \<Rightarrow> go_panic + event list" where
  "NewUnconfirmedTxAlarm w =
     (if isSleep w
      then (case newUnconfirmedTxAlarm w of
              Closed \<Rightarrow> Inl SendOnClosedChannel
            | Open \<Rightarrow> Inr [SendNewUnconfirmedTxAlarm])
      else Inr [])"

text \<open>
  \<^verbatim>\<open>Start\<close> (the method; \<open>Start\<close> alone is the status constant). In
  \<^verbatim>\<open>for i, v := range w.contractTasks { v = NewContractTask(w, i, w.dispatchTask); v.Start() }\<close>
  the variable \<^verbatim>\<open>v\<close> is a copy of the slot, so the new task is created and started
  but the slice \<^verbatim>\<open>w.contractTasks\<close> is left as it was.
\<close>

definition ContractWorker_Start :: "ContractWorker \<Rightarrow> go_panic + ContractWorker \<times> event list" where
  "ContractWorker_Start w =
     (if status w \<noteq> Start
      then Inr (w\<lparr> status := Start \<rparr>,
                [AddContractLis (gid w)]
                @ concat (map (\<lambda>i. [NewContractTask i, TaskStart i]) [0 ..< length (contractTasks w)])
                @ [GoWaitingNewBlock])
      else (case NewUnconfirmedTxAlarm w of
              Inl p \<Rightarrow> Inl p
            | Inr evs \<Rightarrow> Inr (w, evs)))"

text \<open>
  \<^verbatim>\<open>Stop\<close> (the method). Its first action is the send \<^verbatim>\<open>w.breaker <- struct{}{}\<close> on an
  unbuffered channel, whose only receiver is the dispatch loop \<^verbatim>\<open>waitingNewBlock\<close>, and
  only \<^verbatim>\<open>Start\<close> spawns that loop. On a scheduler in state \<open>Create\<close> no loop exists and
  the send blocks for ever: \<^verbatim>\<open>Stop\<close> does not return, which is the result \<open>None\<close>. The
  goroutines of the last loop read the loop variable \<^verbatim>\<open>v\<close>; the model takes each of them
  to call \<^verbatim>\<open>Stop\<close> on the slot of its own iteration. A receive from a closed channel
  returns at once and does not panic.
\<close>

definition ContractWorker_Stop :: "ContractWorker \<Rightarrow> (go_panic + ContractWorker \<times> event list) option" where
  "ContractWorker_Stop w =
     (if status w \<noteq> Stop
      then (case breaker w of
              Closed \<Rightarrow> Some (Inl SendOnClosedChannel)
            | Open \<Rightarrow>
                if status w = Create then None
                else (case newUnconfirmedTxAlarm w of
                        Closed \<Rightarrow> Some (Inl CloseOfClosedChannel)
                      | Open \<Rightarrow>
                          (case stopDispatcherListener w of
                             Closed \<Rightarrow> Some (Inl CloseOfClosedChannel)
                           | Open \<Rightarrow>
                               Some (Inr (w\<lparr> isSleep := True,
                                            newUnconfirmedTxAlarm := Closed,
                                            stopDispatcherListener := Closed,
                                            status := Stop \<rparr>,
                                          [SendBreaker, RemoveContractLis (gid w), CloseNewUnconfirmedTxAlarm,
                                           ReceiveStopDispatcherListener, CloseStopDispatcherListener]
                                          @ map TaskStop (contractTasks w)
                                          @ [WaitGroupWait])))))
      else Some (Inr (w, [])))"

definition Status :: "ContractWorker \<Rightarrow> status" where
  "Status w = status w"

subsection \<open>Notions used in the statements\<close>

text \<open>An item passes the test \<^verbatim>\<open>!w.isInBlackList(v.AccountAddress, v.ToAddress)\<close>.\<close>

definition not_blacklisted :: "env \<Rightarrow> (Hash \<rightharpoonup> bool) \<Rightarrow> AccountBlock \<Rightarrow> bool" where
  "not_blacklisted e bl v = (\<not> isInBlackList e bl (AccountAddress v) (ToAddress v))"

text \<open>
  Inserting a list of blocks, each with the quotas of its receiver and of its sender, as
  the body of the range loop does.
\<close>

fun insert_all :: "env \<Rightarrow> Hash \<Rightarrow> AccountBlock list \<Rightarrow> PriorityToQueue \<Rightarrow> PriorityToQueue" where
  "insert_all e sh [] q = q"
| "insert_all e sh (v # vs) q =
     insert_all e sh vs
       (InsertNew q v (GetAccountQuota e (ToAddress v) sh) (GetAccountQuota e (AccountAddress v) sh))"

text \<open>
  The specification's reading of a fetch: the addresses of a slice of the bound address
  list are scanned one after the other, each from its first page.
\<close>

fun scan_addresses ::
  "env \<Rightarrow> (Hash \<rightharpoonup> bool) \<Rightarrow> Hash \<Rightarrow> Address list \<Rightarrow> PriorityToQueue \<Rightarrow> PriorityToQueue option" where
  "scan_addresses e bl sh [] q = Some q"
| "scan_addresses e bl sh (a # as) q =
     (case page_loop e bl sh a 0 0 q of
        None \<Rightarrow> None
      | Some q' \<Rightarrow> scan_addresses e bl sh as q')"

text \<open>The store answers page \<open>k\<close> of address \<open>a\<close> with a \<^verbatim>\<open>nil\<close> page or with an error.\<close>

definition page_ends :: "env \<Rightarrow> Address \<Rightarrow> nat \<Rightarrow> bool" where
  "page_ends e a k =
     (fst (GetUnconfirmedBlocks e k 1 (CONTRACT_FETCH_SIZE e) a) = None
      \<or> snd (GetUnconfirmedBlocks e k 1 (CONTRACT_FETCH_SIZE e) a) \<noteq> None)"

text \<open>
  \<open>page_read e bl a c k pg\<close>: the paging loop for address \<open>a\<close>, entered with the counter
  at \<open>c\<close> and the page index at \<open>k\<close>, gets page \<open>pg\<close> from the store without an error,
  at \<open>k\<close> or at a later index that the loop reaches.
\<close>

inductive page_read :: "env \<Rightarrow> (Hash \<rightharpoonup> bool) \<Rightarrow> Address \<Rightarrow> nat \<Rightarrow> nat \<Rightarrow> AccountBlock list \<Rightarrow> bool"
  for e :: env and bl :: "Hash \<rightharpoonup> bool" and a :: Address where
  here: "GetUnconfirmedBlocks e k 1 (CONTRACT_FETCH_SIZE e) a = (Some pg, None) \<Longrightarrow> page_read e bl a c k pg"
| later: "GetUnconfirmedBlocks e k 1 (CONTRACT_FETCH_SIZE e) a = (Some p0, None) \<Longrightarrow>
          c + length (filter (not_blacklisted e bl) p0) < CONTRACT_FETCH_SIZE e \<Longrightarrow>
          page_read e bl a (c + length (filter (not_blacklisted e bl) p0)) (k + 1) pg \<Longrightarrow>
          page_read e bl a c k pg"

text \<open>No bucket of the queue is empty.\<close>

definition wf_queue :: "PriorityToQueue \<Rightarrow> bool" where
  "wf_queue q = (\<forall>t \<in> set (toItems q). tValue t \<noteq> [])"

subsection \<open>Example data\<close>

definition blk :: "Address \<Rightarrow> Address \<Rightarrow> AccountBlock" where
  "blk from to = \<lparr> AccountAddress = from, ToAddress = to, BlockHash = from @ to \<rparr>"

text \<open>
  A store of two bound addresses for group \<open>g1\<close>: two pending items for \<open>R1\<close> in its first
  page, nothing for \<open>R2\<close>. Group \<open>g2\<close> cannot be looked up, every other group is empty.
\<close>

definition example_env :: env where
  "example_env =
     \<lparr> CONTRACT_TASK_SIZE = 2,
       CONTRACT_FETCH_SIZE = 2,
       GetAddrListByGid = (\<lambda>g. if g = ''g1'' then (Some [''R1'', ''R2''], None)
                               else if g = ''g2'' then (None, Some (ErrorString ''db closed''))
                               else (Some [], None)),
       GetUnconfirmedBlocks = (\<lambda>i n c a. if a = ''R1'' \<and> i = 0
                                          then (Some [blk ''S1'' ''R1'', blk ''S2'' ''R1''], None)
                                          else (None, None)),
       GetAccountQuota = (\<lambda>a sh. if a = ''R1'' then 10 else if a = ''R2'' then 20
                                 else if a = ''S1'' then 5 else if a = ''S2'' then 8 else 1),
       DataListHash = (\<lambda>from to. from @ ''/'' @ to) \<rparr>"

definition example_event :: AccountStartEvent where
  "example_event = \<lparr> evGid = ''g1'', evAddress = ''P'', evSnapshotHash = ''h'' \<rparr>"

text \<open>The scheduler that \<^verbatim>\<open>NewContractWorker\<close> returns for \<open>g1\<close>.\<close>

definition example_worker :: ContractWorker where
  "example_worker =
     \<lparr> gid = ''g1'', address = ''P'', accEvent = example_event,
       contractAddressList = [''R1'', ''R2''], status = Create, isSleep = False,
       newUnconfirmedTxAlarm = Open, breaker = Open, stopDispatcherListener = Open,
       contractTasks = [None, None], priorityToQueue = None, blackList = Map.empty,
       lastAddrIndex = 0 \<rparr>"

text \<open>The scheduler of the example with a queue allocated.\<close>

definition queued_worker :: "PriorityToQueue \<Rightarrow> ContractWorker" where
  "queued_worker q = example_worker\<lparr> priorityToQueue := Some q \<rparr>"

text \<open>The example scheduler after \<^verbatim>\<open>Start\<close> and \<^verbatim>\<open>Stop\<close>.\<close>

definition example_stopped :: ContractWorker where
  "example_stopped =
     example_worker\<lparr> isSleep := True, newUnconfirmedTxAlarm := Closed,
                     stopDispatcherListener := Closed, status := Stop \<rparr>"

text \<open>
  Variants of the store: no pending items at all; one address per fetch; both; an error on
  the first page.
\<close>

definition empty_store_env :: env where
  "empty_store_env = example_env\<lparr> GetUnconfirmedBlocks := (\<lambda>i n c a. (None, None)) \<rparr>"

definition one_task_env :: env where
  "one_task_env = example_env\<lparr> CONTRACT_TASK_SIZE := 1 \<rparr>"

definition empty_one_task_env :: env where
  "empty_one_task_env = empty_store_env\<lparr> CONTRACT_TASK_SIZE := 1 \<rparr>"

definition error_env :: env where
  "error_env = example_env\<lparr> GetUnconfirmedBlocks :=
     (\<lambda>i n c a. if a = ''R1'' \<and> i = 0
                then (Some [blk ''S1'' ''R1''], Some (ErrorString ''db closed''))
                else (None, None)) \<rparr>"

text \<open>
  Scenario A of the specification: receiver \<open>R1\<close> (priority 10) with the items of \<open>S1\<close>
  (priority 5) and \<open>S2\<close> (priority 8), then receiver \<open>R2\<close> (priority 20) with the item of
  \<open>S3\<close> (priority 1).
\<close>

definition from_item :: "Address \<Rightarrow> Address \<Rightarrow> nat \<Rightarrow> nat \<Rightarrow> FromItem" where
  "from_item from to p s = \<lparr> fBlock = blk from to, fPriority = p, fSeq = s \<rparr>"

definition two_items :: PriorityToQueue where
  "two_items = InsertNew (InsertNew empty_queue (blk ''S1'' ''R1'') 10 5) (blk ''S2'' ''R1'') 10 8"

definition scenario_A :: PriorityToQueue where
  "scenario_A = InsertNew two_items (blk ''S3'' ''R2'') 20 1"

text \<open>Scenario B of the specification: the pair (\<open>S1\<close>, \<open>R1\<close>) is blacklisted, and cleared again.\<close>

definition blacklisted_worker :: "PriorityToQueue \<Rightarrow> ContractWorker" where
  "blacklisted_worker q = addIntoBlackList example_env (queued_worker q) ''S1'' ''R1''"

definition cleared_worker :: "PriorityToQueue \<Rightarrow> ContractWorker" where
  "cleared_worker q = deleteBlackListItem example_env (blacklisted_worker q) ''S1'' ''R1''"

definition only_S2 :: PriorityToQueue where
  "only_S2 = InsertNew empty_queue (blk ''S2'' ''R1'') 10 8"

definition after_removal :: PriorityToQueue where
  "after_removal = InsertNew (InsertNew only_S2 (blk ''S1'' ''R1'') 10 5) (blk ''S2'' ''R1'') 10 8"

section \<open>Theorems\<close>

subsection \<open>What a fetch does to the queue\<close>

lemma insert_all_append:
  "insert_all e sh (xs @ ys) q = insert_all e sh ys (insert_all e sh xs q)"
  by (induction xs arbitrary: q) simp_all

lemma insert_page_eq:
  "insert_page e bl sh vs (q, c) =
     (insert_all e sh (filter (not_blacklisted e bl) vs) q,
      c + length (filter (not_blacklisted e bl) vs))"
  by (induction vs arbitrary: q c) (simp_all add: not_blacklisted_def Let_def)

lemma page_loop_inserts:
  assumes h: "page_loop e bl sh a c k q = Some q'"
  shows "\<exists>vs. (\<forall>v \<in> set vs. not_blacklisted e bl v) \<and> q' = insert_all e sh vs q"
proof (rule page_loop.raw_induct
    [where P = "\<lambda>e bl sh a c k q q'. \<exists>vs. (\<forall>v \<in> set vs. not_blacklisted e bl v) \<and> q' = insert_all e sh vs q",
      OF _ h], goal_cases)
  case (1 f e bl sh a cnt nextIndex q q')
  obtain pg err where g: "GetUnconfirmedBlocks e nextIndex 1 (CONTRACT_FETCH_SIZE e) a = (pg, err)"
    by (cases "GetUnconfirmedBlocks e nextIndex 1 (CONTRACT_FETCH_SIZE e) a")
  show ?case
  proof (cases "pg = None \<or> err \<noteq> None")
    case True
    with 1(2) g have "q' = q" by (auto split: option.splits)
    then show ?thesis by (intro exI [of _ "[]"]) simp
  next
    case False
    then obtain blockList where pg: "pg = Some blockList" and err: "err = None" by auto
    let ?ins = "filter (not_blacklisted e bl) blockList"
    let ?q1 = "insert_all e sh ?ins q"
    show ?thesis
    proof (cases "cnt + length ?ins < CONTRACT_FETCH_SIZE e")
      case True
      with 1(2) g pg err have "f e bl sh a (cnt + length ?ins) (nextIndex + 1) ?q1 = Some q'"
        by (simp add: insert_page_eq)
      from 1(1) [OF this] obtain vs where
        vs: "\<forall>v \<in> set vs. not_blacklisted e bl v" "q' = insert_all e sh vs ?q1" by blast
      then show ?thesis
        by (intro exI [of _ "?ins @ vs"]) (auto simp: insert_all_append)
    next
      case False
      with 1(2) g pg err have "q' = ?q1" by (simp add: insert_page_eq)
      then show ?thesis by (intro exI [of _ "?ins"]) simp
    qed
  qed
qed

lemma scan_addresses_inserts:
  "scan_addresses e bl sh as q = Some q' \<Longrightarrow>
     \<exists>vs. (\<forall>v \<in> set vs. not_blacklisted e bl v) \<and> q' = insert_all e sh vs q"
proof (induction as arbitrary: q)
  case Nil
  then show ?case by (intro exI [of _ "[]"]) simp
next
  case (Cons a as)
  then obtain q1 where q1: "page_loop e bl sh a 0 0 q = Some q1" "scan_addresses e bl sh as q1 = Some q'"
    by (auto split: option.splits)
  from page_loop_inserts [OF q1(1)] obtain xs where
    xs: "\<forall>v \<in> set xs. not_blacklisted e bl v" "q1 = insert_all e sh xs q" by blast
  from Cons.IH [OF q1(2)] obtain ys where
    ys: "\<forall>v \<in> set ys. not_blacklisted e bl v" "q' = insert_all e sh ys q1" by blast
  from xs ys show ?case
    by (intro exI [of _ "xs @ ys"]) (auto simp: insert_all_append)
qed

lemma addr_loop_scan:
  "start \<le> i \<Longrightarrow>
   addr_loop e bl sh addrs start i q =
     (case scan_addresses e bl sh (take (start + CONTRACT_TASK_SIZE e - i) (drop i addrs)) q of
        None \<Rightarrow> None
      | Some q' \<Rightarrow> Some (max i (min (length addrs) (start + CONTRACT_TASK_SIZE e)), q'))"
proof (induction e bl sh addrs start i q rule: addr_loop.induct)
  case (1 e bl sh addrs start i q)
  let ?T = "CONTRACT_TASK_SIZE e"
  show ?case
  proof (cases "i < length addrs \<and> i - start < ?T")
    case True
    have "start + ?T - i = Suc (start + ?T - (i + 1))" using True 1(2) by arith
    moreover have "drop i addrs = addrs ! i # drop (i + 1) addrs"
      using True by (simp add: Cons_nth_drop_Suc)
    ultimately have sl: "take (start + ?T - i) (drop i addrs)
                 = addrs ! i # take (start + ?T - (i + 1)) (drop (i + 1) addrs)"
      by simp
    have mx: "max (i + 1) (min (length addrs) (start + ?T)) = max i (min (length addrs) (start + ?T))"
      using True 1(2) by arith
    have step: "addr_loop e bl sh addrs start i q =
                  (case page_loop e bl sh (addrs ! i) 0 0 q of
                     None \<Rightarrow> None
                   | Some q' \<Rightarrow> addr_loop e bl sh addrs start (i + 1) q')"
      by (subst addr_loop.simps) (rule if_P [OF True])
    show ?thesis
    proof (cases "page_loop e bl sh (addrs ! i) 0 0 q")
      case None
      then show ?thesis unfolding step sl by simp
    next
      case (Some q1)
      have "start \<le> i + 1" using 1(2) by simp
      from 1(1) [OF True Some this] have
        "addr_loop e bl sh addrs start (i + 1) q1 =
           (case scan_addresses e bl sh (take (start + ?T - (i + 1)) (drop (i + 1) addrs)) q1 of
              None \<Rightarrow> None
            | Some q' \<Rightarrow> Some (max i (min (length addrs) (start + ?T)), q'))"
        unfolding mx .
      with Some show ?thesis unfolding step sl by simp
    qed
  next
    case False
    have "start + ?T \<le> i \<or> length addrs \<le> i"
      using False 1(2) by arith
    then have tk: "take (start + ?T - i) (drop i addrs) = []"
      by auto
    have mx: "max i (min (length addrs) (start + ?T)) = i"
      using False 1(2) by arith
    have "addr_loop e bl sh addrs start i q = Some (i, q)"
      by (subst addr_loop.simps) (rule if_not_P [OF False])
    then show ?thesis unfolding tk mx by simp
  qed
qed

lemma FetchNewFromDb_eq:
  assumes "priorityToQueue w = Some q"
  shows "FetchNewFromDb e w =
     (case scan_addresses e (blackList w) (evSnapshotHash (accEvent w))
             (take (CONTRACT_TASK_SIZE e) (drop (lastAddrIndex w) (contractAddressList w))) q of
        None \<Rightarrow> None
      | Some q' \<Rightarrow>
          Some (Inr (length (contractAddressList w) \<le> lastAddrIndex w + CONTRACT_TASK_SIZE e,
                     w\<lparr> priorityToQueue := Some q',
                        lastAddrIndex := (if length (contractAddressList w) \<le> lastAddrIndex w + CONTRACT_TASK_SIZE e
                                          then 0 else lastAddrIndex w + CONTRACT_TASK_SIZE e) \<rparr>)))"
proof -
  let ?n = "length (contractAddressList w)" and ?s = "lastAddrIndex w" and ?T = "CONTRACT_TASK_SIZE e"
  have a: "addr_loop e (blackList w) (evSnapshotHash (accEvent w)) (contractAddressList w) ?s ?s q =
     (case scan_addresses e (blackList w) (evSnapshotHash (accEvent w))
             (take ?T (drop ?s (contractAddressList w))) q of
        None \<Rightarrow> None
      | Some q' \<Rightarrow> Some (max ?s (min ?n (?s + ?T)), q'))"
    using addr_loop_scan [of ?s ?s e "blackList w" "evSnapshotHash (accEvent w)" "contractAddressList w" q]
    by simp
  have b: "(?n \<le> max ?s (min ?n (?s + ?T))) = (?n \<le> ?s + ?T)" by arith
  have c: "\<not> ?n \<le> ?s + ?T \<Longrightarrow> max ?s (min ?n (?s + ?T)) = ?s + ?T" by arith
  show ?thesis
    unfolding FetchNewFromDb_def assms option.case a using b c
    by (cases "scan_addresses e (blackList w) (evSnapshotHash (accEvent w))
                 (take ?T (drop ?s (contractAddressList w))) q") auto
qed

lemma page_loop_returns:
  "page_ends e a k \<Longrightarrow> k0 \<le> k \<Longrightarrow> \<exists>q'. page_loop e bl sh a c k0 q = Some q'"
proof (induction "k - k0" arbitrary: k0 c q)
  case 0
  then have "k0 = k" by simp
  with 0(2) show ?case
    by (subst page_loop.simps)
       (cases "GetUnconfirmedBlocks e k 1 (CONTRACT_FETCH_SIZE e) a",
        auto simp: page_ends_def split: option.splits)
next
  case (Suc n)
  obtain pg err where g: "GetUnconfirmedBlocks e k0 1 (CONTRACT_FETCH_SIZE e) a = (pg, err)"
    by (cases "GetUnconfirmedBlocks e k0 1 (CONTRACT_FETCH_SIZE e) a")
  have ih: "\<exists>q'. page_loop e bl sh a c' (k0 + 1) q1 = Some q'" for c' q1
    using Suc(1) [of "k0 + 1" c' q1] Suc(2,3,4) by simp
  show ?case
  proof (cases "pg = None \<or> err \<noteq> None")
    case True
    with g show ?thesis by (subst page_loop.simps) (auto split: option.splits)
  next
    case False
    then obtain blockList where pg: "pg = Some blockList" "err = None" by auto
    show ?thesis
      using ih g pg
      by (subst page_loop.simps) (simp add: insert_page_eq)
  qed
qed

lemma scan_addresses_returns:
  "\<forall>a \<in> set as. \<exists>k. page_ends e a k \<Longrightarrow> \<exists>q'. scan_addresses e bl sh as q = Some q'"
proof (induction as arbitrary: q)
  case Nil
  show ?case by simp
next
  case (Cons a as)
  then obtain k where "page_ends e a k" by auto
  from page_loop_returns [OF this, of 0 bl sh 0 q] obtain q1 where
    "page_loop e bl sh a 0 0 q = Some q1" by auto
  moreover from Cons obtain q' where "scan_addresses e bl sh as q1 = Some q'" by fastforce
  ultimately show ?case by simp
qed

subsection \<open>Queue contents\<close>

lemma queued_insert_bucket:
  "mset (concat (map (\<lambda>t. map fBlock (tValue t)) (insert_bucket ts to toP s item)))
     = add_mset (fBlock item) (mset (concat (map (\<lambda>t. map fBlock (tValue t)) ts)))"
  by (induction ts) simp_all

lemma queued_InsertNew: "mset (queued (InsertNew q v tq fq)) = add_mset v (mset (queued q))"
  by (simp add: queued_def InsertNew_def Let_def queued_insert_bucket)

lemma queued_insert_all: "mset (queued (insert_all e sh vs q)) = mset (queued q) + mset vs"
  by (induction vs arbitrary: q) (simp_all add: queued_InsertNew)

lemma Len_insert_bucket:
  "sum_list (map (\<lambda>t. length (tValue t)) (insert_bucket ts to toP s item))
     = Suc (sum_list (map (\<lambda>t. length (tValue t)) ts))"
  by (induction ts) simp_all

lemma Len_InsertNew: "Len (InsertNew q v tq fq) = Suc (Len q)"
  by (simp add: Len_def InsertNew_def Let_def Len_insert_bucket)

lemma Len_insert_all: "Len (insert_all e sh vs q) = Len q + length vs"
  by (induction vs arbitrary: q) (simp_all add: Len_InsertNew)

lemma Len_queued: "Len q = length (queued q)"
  by (simp add: Len_def queued_def length_concat comp_def)

lemma wf_insert_bucket:
  "\<forall>t \<in> set ts. tValue t \<noteq> [] \<Longrightarrow> \<forall>t \<in> set (insert_bucket ts to toP s item). tValue t \<noteq> []"
  by (induction ts) simp_all

lemma wf_InsertNew: "wf_queue q \<Longrightarrow> wf_queue (InsertNew q v tq fq)"
  by (simp add: wf_queue_def InsertNew_def Let_def wf_insert_bucket)

lemma wf_insert_all: "wf_queue q \<Longrightarrow> wf_queue (insert_all e sh vs q)"
  by (induction vs arbitrary: q) (simp_all add: wf_InsertNew)

lemma wf_Len: "wf_queue q \<Longrightarrow> (Len q = 0) = (toItems q = [])"
  by (cases "toItems q") (auto simp: wf_queue_def Len_def)

lemma insert_all_same: "Len (insert_all e sh vs q) = Len q \<Longrightarrow> insert_all e sh vs q = q"
proof -
  assume "Len (insert_all e sh vs q) = Len q"
  then have "vs = []" by (simp add: Len_insert_all)
  then show ?thesis by simp
qed

lemma heap_top_in: "heap_top lt x xs \<in> set (x # xs)"
  by (induction xs arbitrary: x) (simp, force)

lemma page_read_inserted:
  assumes "page_read e bl a c k pg" and "v \<in> set pg" and "not_blacklisted e bl v"
    and "page_loop e bl sh a c k q = Some q'"
  shows "v \<in> set (queued q')"
  using assms
proof (induction arbitrary: q rule: page_read.induct)
  case (here k pg c)
  let ?ins = "filter (not_blacklisted e bl) pg"
  let ?q1 = "insert_all e sh ?ins q"
  have v1: "v \<in># mset (queued ?q1)"
    using here(2,3) by (simp add: queued_insert_all)
  show ?case
  proof (cases "c + length ?ins < CONTRACT_FETCH_SIZE e")
    case True
    with here(1,4) have "page_loop e bl sh a (c + length ?ins) (k + 1) ?q1 = Some q'"
      by (subst (asm) page_loop.simps) (simp add: insert_page_eq)
    from page_loop_inserts [OF this] obtain vs where "q' = insert_all e sh vs ?q1" by blast
    then have "mset (queued q') = mset (queued ?q1) + mset vs"
      by (simp only: queued_insert_all)
    with v1 have "v \<in># mset (queued q')" by simp
    then show ?thesis by simp
  next
    case False
    with here(1,4) have "q' = ?q1"
      by (subst (asm) page_loop.simps) (simp add: insert_page_eq)
    with v1 show ?thesis by simp
  qed
next
  case (later k p0 c pg)
  from later(1,2,7) have
    "page_loop e bl sh a (c + length (filter (not_blacklisted e bl) p0)) (k + 1)
        (insert_all e sh (filter (not_blacklisted e bl) p0) q) = Some q'"
    by (subst (asm) page_loop.simps) (simp add: insert_page_eq)
  from later(4) [OF later(5,6) this] show ?case .
qed

lemma scan_addresses_grows:
  "scan_addresses e bl sh as q = Some q' \<Longrightarrow> set (queued q) \<subseteq> set (queued q')"
proof -
  assume "scan_addresses e bl sh as q = Some q'"
  from scan_addresses_inserts [OF this] obtain vs where "q' = insert_all e sh vs q" by blast
  then have "mset (queued q') = mset (queued q) + mset vs" by (simp only: queued_insert_all)
  then have "set_mset (mset (queued q')) = set_mset (mset (queued q) + mset vs)" by simp
  then show ?thesis by auto
qed

lemma scan_addresses_inserted:
  assumes "a \<in> set as" and "page_read e bl a 0 0 pg" and "v \<in> set pg" and "not_blacklisted e bl v"
    and "scan_addresses e bl sh as q = Some q'"
  shows "v \<in> set (queued q')"
  using assms(1,5)
proof (induction as arbitrary: q)
  case Nil
  then show ?case by simp
next
  case (Cons x xs)
  from Cons(3) obtain q1 where q1: "page_loop e bl sh x 0 0 q = Some q1"
    "scan_addresses e bl sh xs q1 = Some q'"
    by (auto split: option.splits)
  show ?case
  proof (cases "x = a")
    case True
    with q1(1) have "v \<in> set (queued q1)"
      using page_read_inserted [OF assms(2,3,4)] by simp
    with scan_addresses_grows [OF q1(2)] show ?thesis by auto
  next
    case False
    with Cons(2) have "a \<in> set xs" by simp
    from Cons(1) [OF this q1(2)] show ?thesis .
  qed
qed

subsection \<open>The fetch loop of the dispatch callback\<close>

lemma FetchNewFromDb_returns:
  assumes q: "priorityToQueue w = Some q"
    and ends: "\<forall>a \<in> set (contractAddressList w). \<exists>k. page_ends e a k"
  shows "\<exists>vs. (\<forall>v \<in> set vs. not_blacklisted e (blackList w) v) \<and>
           FetchNewFromDb e w =
             Some (Inr (length (contractAddressList w) \<le> lastAddrIndex w + CONTRACT_TASK_SIZE e,
                        w\<lparr> priorityToQueue := Some (insert_all e (evSnapshotHash (accEvent w)) vs q),
                           lastAddrIndex :=
                             (if length (contractAddressList w) \<le> lastAddrIndex w + CONTRACT_TASK_SIZE e
                              then 0 else lastAddrIndex w + CONTRACT_TASK_SIZE e) \<rparr>))"
proof -
  let ?as = "take (CONTRACT_TASK_SIZE e) (drop (lastAddrIndex w) (contractAddressList w))"
  have "set ?as \<subseteq> set (contractAddressList w)"
    by (meson set_take_subset set_drop_subset subset_trans)
  with ends have "\<forall>a \<in> set ?as. \<exists>k. page_ends e a k" by blast
  from scan_addresses_returns [OF this] obtain q' where
    s: "scan_addresses e (blackList w) (evSnapshotHash (accEvent w)) ?as q = Some q'" by blast
  from scan_addresses_inserts [OF s] obtain vs where
    vs: "\<forall>v \<in> set vs. not_blacklisted e (blackList w) v"
        "q' = insert_all e (evSnapshotHash (accEvent w)) vs q" by blast
  show ?thesis
    using vs(1) by (intro exI [of _ vs]) (simp add: FetchNewFromDb_eq [OF q] s vs(2))
qed

lemma fetch_until_returns:
  assumes T: "0 < CONTRACT_TASK_SIZE e"
    and ends: "\<forall>a \<in> set (contractAddressList w). \<exists>k. page_ends e a k"
    and q: "priorityToQueue w = Some q"
  shows "\<exists>c b w1 q1. lastAddrIndex w \<le> c
           \<and> FetchNewFromDb e (w\<lparr> lastAddrIndex := c \<rparr>) = Some (Inr (b, w1))
           \<and> priorityToQueue w1 = Some q1
           \<and> (b \<or> Len q1 \<noteq> 0)
           \<and> (\<exists>vs. q1 = insert_all e (evSnapshotHash (accEvent w)) vs q)
           \<and> fetch_until e w = Some (Inr w1)"
  using ends q
proof (induction "length (contractAddressList w) - lastAddrIndex w" arbitrary: w rule: less_induct)
  case less
  let ?n = "length (contractAddressList w)" and ?s = "lastAddrIndex w" and ?T = "CONTRACT_TASK_SIZE e"
  let ?sh = "evSnapshotHash (accEvent w)"
  from FetchNewFromDb_returns [OF less(3,2)] obtain vs where
    f: "FetchNewFromDb e w =
          Some (Inr (?n \<le> ?s + ?T,
                     w\<lparr> priorityToQueue := Some (insert_all e ?sh vs q),
                        lastAddrIndex := (if ?n \<le> ?s + ?T then 0 else ?s + ?T) \<rparr>))"
    by blast
  let ?q1 = "insert_all e ?sh vs q"
  let ?w1 = "w\<lparr> priorityToQueue := Some ?q1, lastAddrIndex := (if ?n \<le> ?s + ?T then 0 else ?s + ?T) \<rparr>"
  have same: "w\<lparr> lastAddrIndex := ?s \<rparr> = w" by simp
  show ?case
  proof (cases "?n \<le> ?s + ?T \<or> Len ?q1 \<noteq> 0")
    case True
    then have "fetch_until e w = Some (Inr ?w1)"
      by (subst fetch_until.simps) (auto simp: f)
    with f True show ?thesis
      by (intro exI [of _ ?s] exI [of _ "?n \<le> ?s + ?T"] exI [of _ ?w1] exI [of _ ?q1])
         (auto simp: same)
  next
    case False
    then have nb: "\<not> ?n \<le> ?s + ?T" and len0: "Len ?q1 = 0" by auto
    then have "Len ?q1 = Len q" by (simp add: Len_insert_all)
    then have q1: "?q1 = q" by (rule insert_all_same)
    let ?w2 = "w\<lparr> lastAddrIndex := ?s + ?T \<rparr>"
    have w1: "?w1 = ?w2" using nb q1 less(3) by simp
    have lq: "Len q = 0" using len0 q1 by simp
    have step: "fetch_until e w = fetch_until e ?w2"
      using nb w1 by (subst fetch_until.simps) (simp add: f less(3) lq)
    have "length (contractAddressList ?w2) - lastAddrIndex ?w2 < ?n - ?s"
      using nb T by simp
    moreover have "\<forall>a \<in> set (contractAddressList ?w2). \<exists>k. page_ends e a k"
      using less(2) by simp
    moreover have "priorityToQueue ?w2 = Some q" using less(3) by simp
    ultimately obtain c b w3 q3 where
      r: "lastAddrIndex ?w2 \<le> c" "FetchNewFromDb e (?w2\<lparr> lastAddrIndex := c \<rparr>) = Some (Inr (b, w3))"
         "priorityToQueue w3 = Some q3" "b \<or> Len q3 \<noteq> 0"
         "\<exists>vs. q3 = insert_all e (evSnapshotHash (accEvent ?w2)) vs q"
         "fetch_until e ?w2 = Some (Inr w3)"
      using less(1) [of ?w2] by blast
    from r step show ?thesis
      by (intro exI [of _ c] exI [of _ b] exI [of _ w3] exI [of _ q3]) simp
  qed
qed

lemma cursor_chain_step:
  assumes first: "FetchNewFromDb e w = Some (Inr (False, w\<lparr> lastAddrIndex := lastAddrIndex w + T \<rparr>))"
    and rest: "\<forall>j<k. FetchNewFromDb e (w\<lparr> lastAddrIndex := lastAddrIndex w + T + j * T \<rparr>)
                 = Some (Inr (False, w\<lparr> lastAddrIndex := lastAddrIndex w + T + Suc j * T \<rparr>))"
  shows "\<forall>j<Suc k. FetchNewFromDb e (w\<lparr> lastAddrIndex := lastAddrIndex w + j * T \<rparr>)
                 = Some (Inr (False, w\<lparr> lastAddrIndex := lastAddrIndex w + Suc j * T \<rparr>))"
proof (intro allI impI)
  fix j assume j: "j < Suc k"
  show "FetchNewFromDb e (w\<lparr> lastAddrIndex := lastAddrIndex w + j * T \<rparr>)
                 = Some (Inr (False, w\<lparr> lastAddrIndex := lastAddrIndex w + Suc j * T \<rparr>))"
  proof (cases j)
    case 0
    with first show ?thesis by simp
  next
    case (Suc i)
    with j have "i < k" by simp
    with rest have "FetchNewFromDb e (w\<lparr> lastAddrIndex := lastAddrIndex w + T + i * T \<rparr>)
                 = Some (Inr (False, w\<lparr> lastAddrIndex := lastAddrIndex w + T + Suc i * T \<rparr>))"
      by blast
    then show ?thesis using Suc by (simp add: add.assoc)
  qed
qed

lemma fetch_until_result:
  assumes h: "fetch_until e w = Some r" and q: "priorityToQueue w = Some q"
  shows "\<exists>k b w1 q1.
             (\<forall>j<k. FetchNewFromDb e (w\<lparr> lastAddrIndex := lastAddrIndex w + j * CONTRACT_TASK_SIZE e \<rparr>)
                      = Some (Inr (False, w\<lparr> lastAddrIndex := lastAddrIndex w + Suc j * CONTRACT_TASK_SIZE e \<rparr>)))
           \<and> FetchNewFromDb e (w\<lparr> lastAddrIndex := lastAddrIndex w + k * CONTRACT_TASK_SIZE e \<rparr>)
                = Some (Inr (b, w1))
           \<and> priorityToQueue w1 = Some q1
           \<and> (b \<or> Len q1 \<noteq> 0)
           \<and> (\<exists>vs. q1 = insert_all e (evSnapshotHash (accEvent w)) vs q)
           \<and> r = Inr w1"
proof -
  let ?P = "\<lambda>e w r. \<forall>q. priorityToQueue w = Some q \<longrightarrow>
      (\<exists>k b w1 q1.
             (\<forall>j<k. FetchNewFromDb e (w\<lparr> lastAddrIndex := lastAddrIndex w + j * CONTRACT_TASK_SIZE e \<rparr>)
                      = Some (Inr (False, w\<lparr> lastAddrIndex := lastAddrIndex w + Suc j * CONTRACT_TASK_SIZE e \<rparr>)))
           \<and> FetchNewFromDb e (w\<lparr> lastAddrIndex := lastAddrIndex w + k * CONTRACT_TASK_SIZE e \<rparr>)
                = Some (Inr (b, w1))
           \<and> priorityToQueue w1 = Some q1
           \<and> (b \<or> Len q1 \<noteq> 0)
           \<and> (\<exists>vs. q1 = insert_all e (evSnapshotHash (accEvent w)) vs q)
           \<and> r = Inr w1)"
  have "?P e w r"
  proof (rule fetch_until.raw_induct [where P = ?P, OF _ h], goal_cases)
    case (1 f e w r)
    show ?case
    proof (intro allI impI)
      fix q assume q: "priorityToQueue w = Some q"
      let ?n = "length (contractAddressList w)" and ?s = "lastAddrIndex w" and ?T = "CONTRACT_TASK_SIZE e"
      let ?sh = "evSnapshotHash (accEvent w)"
      let ?as = "take ?T (drop ?s (contractAddressList w))"
      have same: "w\<lparr> lastAddrIndex := ?s \<rparr> = w" by simp
      from 1(2) obtain q' where s: "scan_addresses e (blackList w) ?sh ?as q = Some q'"
        unfolding FetchNewFromDb_eq [OF q] by (auto split: option.splits)
      let ?w1 = "w\<lparr> priorityToQueue := Some q', lastAddrIndex := (if ?n \<le> ?s + ?T then 0 else ?s + ?T) \<rparr>"
      have f: "FetchNewFromDb e w = Some (Inr (?n \<le> ?s + ?T, ?w1))"
        unfolding FetchNewFromDb_eq [OF q] s by simp
      from scan_addresses_inserts [OF s] obtain vs where vs: "q' = insert_all e ?sh vs q" by blast
      show "\<exists>k b w1 q1.
             (\<forall>j<k. FetchNewFromDb e (w\<lparr> lastAddrIndex := ?s + j * ?T \<rparr>)
                      = Some (Inr (False, w\<lparr> lastAddrIndex := ?s + Suc j * ?T \<rparr>)))
           \<and> FetchNewFromDb e (w\<lparr> lastAddrIndex := ?s + k * ?T \<rparr>) = Some (Inr (b, w1))
           \<and> priorityToQueue w1 = Some q1
           \<and> (b \<or> Len q1 \<noteq> 0)
           \<and> (\<exists>vs. q1 = insert_all e ?sh vs q)
           \<and> r = Inr w1"
      proof (cases "?n \<le> ?s + ?T \<or> Len q' \<noteq> 0")
        case True
        with 1(2) have "r = Inr ?w1" unfolding f by (auto split: if_splits)
        with f True vs show ?thesis
          by (intro exI [of _ 0] exI [of _ "?n \<le> ?s + ?T"] exI [of _ ?w1] exI [of _ q'])
             (auto simp: same)
      next
        case False
        then have nb: "\<not> ?n \<le> ?s + ?T" and len0: "Len q' = 0" by auto
        then have "Len (insert_all e ?sh vs q) = Len q" using vs by (simp add: Len_insert_all)
        then have q1: "q' = q" using vs by (simp add: insert_all_same)
        let ?w2 = "w\<lparr> lastAddrIndex := ?s + ?T \<rparr>"
        have w1: "?w1 = ?w2" using nb q1 q by simp
        have first: "FetchNewFromDb e w = Some (Inr (False, ?w2))"
          using f nb w1 by simp
        have "f e ?w2 = Some r"
          using 1(2) nb len0 unfolding f w1 [symmetric] by simp
        from 1(1) [OF this] have "?P e ?w2 r" .
        moreover have "priorityToQueue ?w2 = Some q" using q by simp
        ultimately obtain k b w3 q3 where
          r: "\<forall>j<k. FetchNewFromDb e (?w2\<lparr> lastAddrIndex := lastAddrIndex ?w2 + j * ?T \<rparr>)
                      = Some (Inr (False, ?w2\<lparr> lastAddrIndex := lastAddrIndex ?w2 + Suc j * ?T \<rparr>))"
             "FetchNewFromDb e (?w2\<lparr> lastAddrIndex := lastAddrIndex ?w2 + k * ?T \<rparr>) = Some (Inr (b, w3))"
             "priorityToQueue w3 = Some q3" "b \<or> Len q3 \<noteq> 0"
             "\<exists>vs. q3 = insert_all e (evSnapshotHash (accEvent ?w2)) vs q" "r = Inr w3"
          by blast
        from r(1) have rest: "\<forall>j<k. FetchNewFromDb e (w\<lparr> lastAddrIndex := ?s + ?T + j * ?T \<rparr>)
                 = Some (Inr (False, w\<lparr> lastAddrIndex := ?s + ?T + Suc j * ?T \<rparr>))"
          by simp
        have chain: "\<forall>j<Suc k. FetchNewFromDb e (w\<lparr> lastAddrIndex := ?s + j * ?T \<rparr>)
                 = Some (Inr (False, w\<lparr> lastAddrIndex := ?s + Suc j * ?T \<rparr>))"
          by (rule cursor_chain_step [OF first rest])
        have last: "FetchNewFromDb e (w\<lparr> lastAddrIndex := ?s + Suc k * ?T \<rparr>) = Some (Inr (b, w3))"
          using r(2) by (simp add: add.assoc)
        from chain last r(3,4,5,6) show ?thesis
          by (intro exI [of _ "Suc k"] exI [of _ b] exI [of _ w3] exI [of _ q3]) simp
      qed
    qed
  qed
  with q show ?thesis by blast
qed

lemma heap_Pop_Some:
  "xs \<noteq> [] \<Longrightarrow> \<exists>m. m \<in> set xs \<and> heap_Pop lt xs = Some (m, remove1 m xs)"
  using heap_top_in [of lt "hd xs" "tl xs"]
  by (cases xs) (simp_all add: Let_def)

lemma pop_task_empty:
  "priorityToQueue w = Some q \<Longrightarrow> toItems q = [] \<Longrightarrow> pop_task w = Inr (None, w)"
  by (simp add: pop_task_def Len_def)

lemma pop_task_nonempty:
  assumes "priorityToQueue w = Some q" and "wf_queue q" and "toItems q \<noteq> []"
  shows "\<exists>t item. t \<in> set (toItems q) \<and> item \<in> set (tValue t)
           \<and> pop_task w = Inr (Some item, w\<lparr> priorityToQueue := Some (q\<lparr> toItems := remove1 t (toItems q) \<rparr>) \<rparr>)"
proof -
  from heap_Pop_Some [OF assms(3), of to_less] obtain t where
    t: "t \<in> set (toItems q)" "heap_Pop to_less (toItems q) = Some (t, remove1 t (toItems q))" by blast
  with assms(2) have ne: "tValue t \<noteq> []" by (simp add: wf_queue_def)
  from heap_Pop_Some [OF this, of from_less] obtain item where
    i: "item \<in> set (tValue t)" "heap_Pop from_less (tValue t) = Some (item, remove1 item (tValue t))"
    by blast
  have "Len q \<noteq> 0" using assms(2,3) by (simp add: wf_Len)
  then have "pop_task w = Inr (Some item, w\<lparr> priorityToQueue := Some (q\<lparr> toItems := remove1 t (toItems q) \<rparr>) \<rparr>)"
    using assms(1) t(2) i(2) ne by (simp add: pop_task_def)
  with t(1) i(1) show ?thesis by blast
qed

subsection \<open>Evaluation of the examples\<close>

lemma FetchNewFromDb_inserts:
  assumes q: "priorityToQueue w = Some q" and f: "FetchNewFromDb e w = Some (Inr (b, w'))"
  shows "\<exists>q'. priorityToQueue w' = Some q'
           \<and> scan_addresses e (blackList w) (evSnapshotHash (accEvent w))
                (take (CONTRACT_TASK_SIZE e) (drop (lastAddrIndex w) (contractAddressList w))) q = Some q'"
  using f unfolding FetchNewFromDb_eq [OF q]
  by (auto split: option.splits)

lemma two_items_eq:
  "two_items = \<lparr> toItems = [\<lparr> tAddress = ''R1'', tPriority = 10, tSeq = 0,
                               tValue = [from_item ''S1'' ''R1'' 5 0, from_item ''S2'' ''R1'' 8 1] \<rparr>],
                  seqCounter = 2 \<rparr>"
  by (simp add: two_items_def InsertNew_def empty_queue_def blk_def from_item_def Let_def numeral_2_eq_2)

lemma scenario_A_eq:
  "scenario_A = \<lparr> toItems = [\<lparr> tAddress = ''R1'', tPriority = 10, tSeq = 0,
                               tValue = [from_item ''S1'' ''R1'' 5 0, from_item ''S2'' ''R1'' 8 1] \<rparr>,
                             \<lparr> tAddress = ''R2'', tPriority = 20, tSeq = 2,
                               tValue = [from_item ''S3'' ''R2'' 1 2] \<rparr>],
                  seqCounter = 3 \<rparr>"
  by (simp add: scenario_A_def two_items_eq InsertNew_def blk_def from_item_def Let_def eval_nat_numeral)

lemma Stop_when_stopped: "status w = Stop \<Longrightarrow> ContractWorker_Stop w = Some (Inr (w, []))"
  by (simp add: ContractWorker_Stop_def)

lemma Stop_when_created:
  "status w = Create \<Longrightarrow> breaker w = Open \<Longrightarrow> ContractWorker_Stop w = None"
  by (simp add: ContractWorker_Stop_def)

lemma FetchNewFromDb_nil_queue_insert: "FetchNewFromDb example_env example_worker = Some (Inl NilPointerDereference)"
  by (simp add: FetchNewFromDb_def example_worker_def example_env_def addr_loop_nil.simps
        page_loop_nil.simps isInBlackList_def blk_def)

lemma FetchNewFromDb_nil_queue_empty_store: "FetchNewFromDb empty_store_env example_worker = Some (Inr (True, example_worker))"
  by (simp add: FetchNewFromDb_def example_worker_def empty_store_env_def example_env_def
        addr_loop_nil.simps page_loop_nil.simps)

subsection \<open>The claims\<close>

text \<open>
  C1. A dispatch pop from a non-empty queue removes and returns exactly one item: the
  length of the queue goes down by one, and every other item, also the other items of
  the popped item's bucket, stays queued. The code does not do this. \<^verbatim>\<open>dispatchTask\<close>
  takes the whole bucket off the top level with \<^verbatim>\<open>heap.Pop\<close>, returns one item of it
  and never puts the bucket back. With the two items of \<open>S1\<close> and \<open>S2\<close> queued for \<open>R1\<close>,
  one call returns the item of \<open>S2\<close> and leaves the queue empty: the length falls from 2
  to 0 and the item of \<open>S1\<close> is lost.
\<close>

theorem dispatchTask_drops_rest_of_bucket:
  "Len two_items = 2
   \<and> queued two_items = [blk ''S1'' ''R1'', blk ''S2'' ''R1'']
   \<and> dispatchTask example_env (example_worker\<lparr> priorityToQueue := Some two_items \<rparr>) 0
       = Some (Inr (Some (from_item ''S2'' ''R1'' 8 1),
                    example_worker\<lparr> priorityToQueue := Some \<lparr> toItems = [], seqCounter = 2 \<rparr> \<rparr>))
   \<and> Len \<lparr> toItems = [], seqCounter = 2 \<rparr> = 0
   \<and> queued \<lparr> toItems = [], seqCounter = 2 \<rparr> = []"
  by (simp add: two_items_eq Len_def queued_def dispatchTask_def pop_task_def to_less_def from_less_def
        precedes_def from_item_def Let_def)

text \<open>
  C2. Each pop returns the item with the highest (receiver priority, sender priority)
  key, and Scenario A pops (\<open>R2\<close>, \<open>S3\<close>), (\<open>R1\<close>, \<open>S2\<close>), (\<open>R1\<close>, \<open>S1\<close>). On the code
  the first two calls of \<^verbatim>\<open>dispatchTask\<close> return the items of \<open>S3\<close> and \<open>S2\<close>; the second
  call discards the bucket of \<open>R1\<close> with the item of \<open>S1\<close> still in it, so the third call
  finds the queue empty and, the store having nothing, returns \<^verbatim>\<open>nil\<close>.
\<close>

theorem scenario_A_pops:
  "dispatchTask empty_store_env (example_worker\<lparr> priorityToQueue := Some scenario_A \<rparr>) 0
     = Some (Inr (Some (from_item ''S3'' ''R2'' 1 2),
                  example_worker\<lparr> priorityToQueue := Some (two_items\<lparr> seqCounter := 3 \<rparr>) \<rparr>))
   \<and> dispatchTask empty_store_env (example_worker\<lparr> priorityToQueue := Some (two_items\<lparr> seqCounter := 3 \<rparr>) \<rparr>) 1
     = Some (Inr (Some (from_item ''S2'' ''R1'' 8 1),
                  example_worker\<lparr> priorityToQueue := Some \<lparr> toItems = [], seqCounter = 3 \<rparr> \<rparr>))
   \<and> dispatchTask empty_store_env (example_worker\<lparr> priorityToQueue := Some \<lparr> toItems = [], seqCounter = 3 \<rparr> \<rparr>) 0
     = Some (Inr (None, example_worker\<lparr> priorityToQueue := Some \<lparr> toItems = [], seqCounter = 3 \<rparr> \<rparr>))"
proof -
  have f1: "FetchNewFromDb empty_store_env
              (example_worker\<lparr> priorityToQueue := Some \<lparr> toItems = [], seqCounter = 3 \<rparr> \<rparr>)
            = Some (Inr (True, example_worker\<lparr> priorityToQueue := Some \<lparr> toItems = [], seqCounter = 3 \<rparr> \<rparr>))"
    by (simp add: FetchNewFromDb_eq empty_store_env_def example_env_def example_worker_def
          page_loop.simps)
  show ?thesis
    by (simp add: scenario_A_eq two_items_eq Len_def dispatchTask_def pop_task_def to_less_def
          from_less_def precedes_def from_item_def Let_def fetch_until.simps f1)
qed

text \<open>
  C3. A fetch inserts no item whose (sender, receiver) pair is in the blacklist when
  the fetch runs: the items of that pair in the queue are the same before and after.
  Once \<^verbatim>\<open>deleteBlackListItem\<close> has removed the pair, a fetch that returns and that reads
  a page holding an item of that pair, at an address it scans, has the item in the
  queue afterwards.
\<close>

theorem fetch_respects_blacklist:
  assumes "priorityToQueue w = Some q"
  shows "(isInBlackList e (blackList w) s r \<and> FetchNewFromDb e w = Some (Inr (b, w')) \<longrightarrow>
            (\<exists>q'. priorityToQueue w' = Some q'
               \<and> filter_mset (\<lambda>v. AccountAddress v = s \<and> ToAddress v = r) (mset (queued q'))
                   = filter_mset (\<lambda>v. AccountAddress v = s \<and> ToAddress v = r) (mset (queued q))))
       \<and> (FetchNewFromDb e (deleteBlackListItem e w s r) = Some (Inr (b2, w2))
            \<and> a \<in> set (take (CONTRACT_TASK_SIZE e) (drop (lastAddrIndex w) (contractAddressList w)))
            \<and> page_read e (blackList (deleteBlackListItem e w s r)) a 0 0 pg
            \<and> v \<in> set pg \<and> AccountAddress v = s \<and> ToAddress v = r \<longrightarrow>
            (\<exists>q2. priorityToQueue w2 = Some q2 \<and> v \<in> set (queued q2)))"
proof (intro conjI impI)
  assume h: "isInBlackList e (blackList w) s r \<and> FetchNewFromDb e w = Some (Inr (b, w'))"
  from FetchNewFromDb_inserts [OF assms] h obtain q' where
    q': "priorityToQueue w' = Some q'"
        "scan_addresses e (blackList w) (evSnapshotHash (accEvent w))
           (take (CONTRACT_TASK_SIZE e) (drop (lastAddrIndex w) (contractAddressList w))) q = Some q'"
    by blast
  from scan_addresses_inserts [OF q'(2)] obtain vs where
    vs: "\<forall>v \<in> set vs. not_blacklisted e (blackList w) v"
        "q' = insert_all e (evSnapshotHash (accEvent w)) vs q" by blast
  have "filter (\<lambda>v. AccountAddress v = s \<and> ToAddress v = r) vs = []"
    using vs(1) h by (auto simp: filter_empty_conv not_blacklisted_def)
  then have "filter_mset (\<lambda>v. AccountAddress v = s \<and> ToAddress v = r) (mset vs) = {#}"
    by (metis mset_filter mset.simps(1))
  then have "filter_mset (\<lambda>v. AccountAddress v = s \<and> ToAddress v = r) (mset (queued q'))
           = filter_mset (\<lambda>v. AccountAddress v = s \<and> ToAddress v = r) (mset (queued q))"
    by (simp add: vs(2) queued_insert_all)
  with q'(1) show "\<exists>q'. priorityToQueue w' = Some q'
               \<and> filter_mset (\<lambda>v. AccountAddress v = s \<and> ToAddress v = r) (mset (queued q'))
                   = filter_mset (\<lambda>v. AccountAddress v = s \<and> ToAddress v = r) (mset (queued q))"
    by blast
next
  let ?w = "deleteBlackListItem e w s r"
  assume h: "FetchNewFromDb e ?w = Some (Inr (b2, w2))
            \<and> a \<in> set (take (CONTRACT_TASK_SIZE e) (drop (lastAddrIndex w) (contractAddressList w)))
            \<and> page_read e (blackList ?w) a 0 0 pg
            \<and> v \<in> set pg \<and> AccountAddress v = s \<and> ToAddress v = r"
  have q: "priorityToQueue ?w = Some q" using assms by (simp add: deleteBlackListItem_def)
  have nb: "not_blacklisted e (blackList ?w) v"
    using h by (simp add: not_blacklisted_def isInBlackList_def deleteBlackListItem_def)
  from FetchNewFromDb_inserts [OF q] h obtain q2 where
    q2: "priorityToQueue w2 = Some q2"
        "scan_addresses e (blackList ?w) (evSnapshotHash (accEvent ?w))
           (take (CONTRACT_TASK_SIZE e) (drop (lastAddrIndex ?w) (contractAddressList ?w))) q = Some q2"
    by blast
  have a: "a \<in> set (take (CONTRACT_TASK_SIZE e) (drop (lastAddrIndex ?w) (contractAddressList ?w)))"
    using h by (simp add: deleteBlackListItem_def)
  from h have pr: "page_read e (blackList ?w) a 0 0 pg" and v: "v \<in> set pg" by auto
  from scan_addresses_inserted [OF a pr v nb q2(2)] q2(1)
  show "\<exists>q2. priorityToQueue w2 = Some q2 \<and> v \<in> set (queued q2)" by blast
qed

theorem fetch_respects_blacklist_witness:
  "priorityToQueue (blacklisted_worker empty_queue) = Some empty_queue
   \<and> isInBlackList example_env (blackList (blacklisted_worker empty_queue)) ''S1'' ''R1''
   \<and> FetchNewFromDb example_env (blacklisted_worker empty_queue)
       = Some (Inr (True, blacklisted_worker only_S2))
   \<and> queued only_S2 = [blk ''S2'' ''R1'']
   \<and> priorityToQueue (blacklisted_worker only_S2) = Some only_S2
   \<and> FetchNewFromDb example_env (cleared_worker only_S2) = Some (Inr (True, cleared_worker after_removal))
   \<and> ''R1'' \<in> set (take (CONTRACT_TASK_SIZE example_env)
                     (drop (lastAddrIndex (blacklisted_worker only_S2))
                        (contractAddressList (blacklisted_worker only_S2))))
   \<and> page_read example_env (blackList (cleared_worker only_S2)) ''R1'' 0 0
        [blk ''S1'' ''R1'', blk ''S2'' ''R1'']
   \<and> blk ''S1'' ''R1'' \<in> set (queued after_removal)"
proof -
  let ?e = example_env
  have h1: "priorityToQueue (blacklisted_worker empty_queue) = Some empty_queue"
    by (simp add: blacklisted_worker_def queued_worker_def addIntoBlackList_def)
  have b1: "isInBlackList ?e (blackList (blacklisted_worker empty_queue)) ''S1'' ''R1''"
    by (simp add: blacklisted_worker_def addIntoBlackList_def isInBlackList_def)
  have f1: "FetchNewFromDb ?e (blacklisted_worker empty_queue) = Some (Inr (True, blacklisted_worker only_S2))"
    by (simp add: FetchNewFromDb_eq blacklisted_worker_def queued_worker_def addIntoBlackList_def
          example_env_def example_worker_def example_event_def page_loop.simps isInBlackList_def
          only_S2_def InsertNew_def empty_queue_def Let_def blk_def)
  have q1: "queued only_S2 = [blk ''S2'' ''R1'']"
    by (simp add: only_S2_def queued_def InsertNew_def empty_queue_def Let_def blk_def)
  have h2: "priorityToQueue (blacklisted_worker only_S2) = Some only_S2"
    by (simp add: blacklisted_worker_def queued_worker_def addIntoBlackList_def)
  have f2: "FetchNewFromDb ?e (cleared_worker only_S2) = Some (Inr (True, cleared_worker after_removal))"
    by (simp add: FetchNewFromDb_eq cleared_worker_def blacklisted_worker_def queued_worker_def
          addIntoBlackList_def deleteBlackListItem_def
          example_env_def example_worker_def example_event_def page_loop.simps isInBlackList_def
          after_removal_def only_S2_def InsertNew_def empty_queue_def Let_def blk_def)
  have a: "''R1'' \<in> set (take (CONTRACT_TASK_SIZE ?e)
                     (drop (lastAddrIndex (blacklisted_worker only_S2))
                        (contractAddressList (blacklisted_worker only_S2))))"
    by (simp add: blacklisted_worker_def queued_worker_def addIntoBlackList_def example_env_def
          example_worker_def)
  have g: "GetUnconfirmedBlocks ?e 0 1 (CONTRACT_FETCH_SIZE ?e) ''R1''
             = (Some [blk ''S1'' ''R1'', blk ''S2'' ''R1''], None)"
    by (simp add: example_env_def)
  have pr: "page_read ?e (blackList (cleared_worker only_S2)) ''R1'' 0 0 [blk ''S1'' ''R1'', blk ''S2'' ''R1'']"
    by (rule page_read.here [OF g])
  from fetch_respects_blacklist [OF h1, of ?e "''S1''" "''R1''" True "blacklisted_worker only_S2"]
       fetch_respects_blacklist [OF h2, of ?e "''S1''" "''R1''" _ _ True "cleared_worker after_removal"
          "''R1''" "[blk ''S1'' ''R1'', blk ''S2'' ''R1'']" "blk ''S1'' ''R1''"]
       h1 b1 f1 q1 h2 f2 a pr
  show ?thesis
    by (simp add: cleared_worker_def [symmetric] blk_def)
       (simp add: cleared_worker_def blacklisted_worker_def deleteBlackListItem_def
          addIntoBlackList_def queued_worker_def)
qed

text \<open>
  C4. \<^verbatim>\<open>NewContractWorker\<close> returns no scheduler and an error when the lookup of the
  bound addresses fails or gives an empty (or \<^verbatim>\<open>nil\<close>) list. For a non-empty list it
  returns a scheduler and no error; the scheduler is in state \<open>Create\<close>, holds the list,
  and every slot of its task pool is \<^verbatim>\<open>nil\<close>: no task has been made or started.
\<close>

theorem NewContractWorker_spec:
  "((snd (GetAddrListByGid e (evGid ev)) \<noteq> None
      \<or> fst (GetAddrListByGid e (evGid ev)) = None
      \<or> fst (GetAddrListByGid e (evGid ev)) = Some [])
     \<longrightarrow> fst (NewContractWorker e ev) = None \<and> snd (NewContractWorker e ev) \<noteq> None)
   \<and> (GetAddrListByGid e (evGid ev) = (Some addressList, None) \<and> addressList \<noteq> []
     \<longrightarrow> (\<exists>w. NewContractWorker e ev = (Some w, None)
            \<and> contractAddressList w = addressList
            \<and> status w = Create
            \<and> contractTasks w = replicate (CONTRACT_TASK_SIZE e) None))"
  by (cases "GetAddrListByGid e (evGid ev)")
     (auto simp: NewContractWorker_def split: option.splits list.splits)

theorem NewContractWorker_spec_witness:
  "fst (NewContractWorker example_env (example_event\<lparr> evGid := ''g0'' \<rparr>)) = None
   \<and> snd (NewContractWorker example_env (example_event\<lparr> evGid := ''g0'' \<rparr>)) \<noteq> None
   \<and> fst (NewContractWorker example_env (example_event\<lparr> evGid := ''g2'' \<rparr>)) = None
   \<and> snd (NewContractWorker example_env (example_event\<lparr> evGid := ''g2'' \<rparr>)) \<noteq> None
   \<and> NewContractWorker example_env example_event = (Some example_worker, None)"
  using NewContractWorker_spec [of example_env "example_event\<lparr> evGid := ''g0'' \<rparr>" "[]"]
        NewContractWorker_spec [of example_env "example_event\<lparr> evGid := ''g2'' \<rparr>" "[]"]
        NewContractWorker_spec [of example_env example_event "[''R1'', ''R2'']"]
  by (simp add: example_env_def example_event_def example_worker_def)
     (simp add: NewContractWorker_def numeral_2_eq_2)

text \<open>
  C5, as stated: when the scheduler is already running, \<^verbatim>\<open>Start\<close> sends a single wake
  signal. This fails when the dispatch loop is not marked sleeping: the guard
  \<^verbatim>\<open>if w.isSleep\<close> of \<^verbatim>\<open>NewUnconfirmedTxAlarm\<close> sends nothing then. It also fails on
  a scheduler that has been stopped and started again while the loop is still marked
  sleeping: the wake channel is closed, and the send panics.
\<close>

theorem Start_sends_no_signal_when_awake:
  "status (example_worker\<lparr> status := Start \<rparr>) = Start
   \<and> ContractWorker_Start (example_worker\<lparr> status := Start \<rparr>)
       = Inr (example_worker\<lparr> status := Start \<rparr>, [])
   \<and> ContractWorker_Start (example_worker\<lparr> status := Start \<rparr>)
       \<noteq> Inr (example_worker\<lparr> status := Start \<rparr>, [SendNewUnconfirmedTxAlarm])
   \<and> ContractWorker_Start example_stopped = Inr (example_stopped\<lparr> status := Start \<rparr>,
         [AddContractLis ''g1'', NewContractTask 0, TaskStart 0, NewContractTask 1, TaskStart 1,
          GoWaitingNewBlock])
   \<and> ContractWorker_Start (example_stopped\<lparr> status := Start \<rparr>) = Inl SendOnClosedChannel"
  by (simp add: ContractWorker_Start_def NewUnconfirmedTxAlarm_def example_worker_def
        example_stopped_def upt_rec)

text \<open>
  C5, amended. When the scheduler is not running, \<^verbatim>\<open>Start\<close> subscribes to arrival
  notifications for the group, allocates the worker pool (a task is created and started
  for every one of the N slots), spawns the dispatch loop and sets the state to \<open>Start\<close>.
  When it is running, \<^verbatim>\<open>Start\<close> changes no scheduler state or infrastructure: if the
  dispatch loop is marked sleeping and the wake channel is open, it only sends a single
  wake signal; if the loop is not marked sleeping, it sends no signal.
\<close>

theorem Start_spec:
  "(status w \<noteq> Start \<longrightarrow>
      (\<exists>w' evs. ContractWorker_Start w = Inr (w', evs)
         \<and> status w' = Start
         \<and> AddContractLis (gid w) \<in> set evs
         \<and> (\<forall>i < length (contractTasks w). NewContractTask i \<in> set evs \<and> TaskStart i \<in> set evs)
         \<and> length (filter (\<lambda>ev. \<exists>i. ev = TaskStart i) evs) = length (contractTasks w)
         \<and> GoWaitingNewBlock \<in> set evs))
   \<and> (status w = Start \<and> isSleep w \<and> newUnconfirmedTxAlarm w = Open \<longrightarrow>
        ContractWorker_Start w = Inr (w, [SendNewUnconfirmedTxAlarm]))
   \<and> (status w = Start \<and> \<not> isSleep w \<longrightarrow> ContractWorker_Start w = Inr (w, []))"
proof -
  have len: "length (filter (\<lambda>ev. \<exists>i. ev = TaskStart i)
               (concat (map (\<lambda>i. [NewContractTask i, TaskStart i]) xs))) = length xs" for xs :: "nat list"
    by (induction xs) auto
  show ?thesis
    using len [of "[0 ..< length (contractTasks w)]"]
    by (auto simp: ContractWorker_Start_def NewUnconfirmedTxAlarm_def)
qed

theorem Start_spec_witness:
  "(\<exists>w' evs. ContractWorker_Start example_worker = Inr (w', evs)
         \<and> status w' = Start
         \<and> AddContractLis ''g1'' \<in> set evs
         \<and> (\<forall>i < length (contractTasks example_worker).
                NewContractTask i \<in> set evs \<and> TaskStart i \<in> set evs)
         \<and> length (filter (\<lambda>ev. \<exists>i. ev = TaskStart i) evs) = length (contractTasks example_worker)
         \<and> GoWaitingNewBlock \<in> set evs)
   \<and> ContractWorker_Start (example_worker\<lparr> status := Start, isSleep := True \<rparr>)
        = Inr (example_worker\<lparr> status := Start, isSleep := True \<rparr>, [SendNewUnconfirmedTxAlarm])
   \<and> ContractWorker_Start (example_worker\<lparr> status := Start \<rparr>)
        = Inr (example_worker\<lparr> status := Start \<rparr>, [])"
  using Start_spec [of example_worker]
        Start_spec [of "example_worker\<lparr> status := Start, isSleep := True \<rparr>"]
        Start_spec [of "example_worker\<lparr> status := Start \<rparr>"]
  by (simp add: example_worker_def)

text \<open>
  C6. \<^verbatim>\<open>Stop\<close> never fails; on a running scheduler it unsubscribes, closes the wake
  channel, waits for the dispatch loop, stops every worker and sets the state to \<open>Stop\<close>.
  On a stopped scheduler \<^verbatim>\<open>Stop\<close> indeed does nothing. But a scheduler that has been
  started, stopped and started again is running with both channels still closed, since
  \<^verbatim>\<open>Start\<close> does not make them anew; \<^verbatim>\<open>Stop\<close> then panics in
  \<^verbatim>\<open>close(w.newUnconfirmedTxAlarm)\<close> and the state never becomes \<open>Stop\<close>. Also the
  first \<^verbatim>\<open>Stop\<close> calls \<^verbatim>\<open>Stop\<close> on the \<^verbatim>\<open>nil\<close> slots of the pool, not on the tasks
  that \<^verbatim>\<open>Start\<close> started.
\<close>

theorem Stop_panics_after_restart:
  "ContractWorker_Start example_worker
     = Inr (example_worker\<lparr> status := Start \<rparr>,
            [AddContractLis ''g1'', NewContractTask 0, TaskStart 0, NewContractTask 1, TaskStart 1,
             GoWaitingNewBlock])
   \<and> ContractWorker_Stop (example_worker\<lparr> status := Start \<rparr>)
     = Some (Inr (example_stopped,
            [SendBreaker, RemoveContractLis ''g1'', CloseNewUnconfirmedTxAlarm,
             ReceiveStopDispatcherListener, CloseStopDispatcherListener,
             TaskStop None, TaskStop None, WaitGroupWait]))
   \<and> ContractWorker_Stop example_stopped = Some (Inr (example_stopped, []))
   \<and> ContractWorker_Start example_stopped
     = Inr (example_stopped\<lparr> status := Start \<rparr>,
            [AddContractLis ''g1'', NewContractTask 0, TaskStart 0, NewContractTask 1, TaskStart 1,
             GoWaitingNewBlock])
   \<and> ContractWorker_Stop (example_stopped\<lparr> status := Start \<rparr>) = Some (Inl CloseOfClosedChannel)"
  by (simp add: ContractWorker_Start_def ContractWorker_Stop_def example_stopped_def
        example_worker_def upt_rec)

text \<open>
  C7. Called on an empty queue, \<^verbatim>\<open>dispatchTask\<close> calls \<^verbatim>\<open>FetchNewFromDb\<close>, first at the
  cursor it finds and then, as long as a call reports no completed pass and leaves the
  queue empty, at the cursor that call has left, \<^verbatim>\<open>CONTRACT_TASK_SIZE\<close> further on. So
  whenever \<^verbatim>\<open>dispatchTask\<close> returns, there are \<open>k\<close> calls that have returned \<open>false\<close> and
  changed nothing but the cursor, and a last call that has left the state \<open>w1\<close> with the
  queue \<open>q1\<close>; the result is what the pop gives on \<open>w1\<close>. If \<open>q1\<close> is empty, the last call
  has reported a completed pass and \<^verbatim>\<open>dispatchTask\<close> returns \<^verbatim>\<open>nil\<close> with the state
  \<open>w1\<close>. If \<open>q1\<close> is not empty, \<^verbatim>\<open>dispatchTask\<close> returns an item of \<open>q1\<close> and takes the
  item's bucket off the top level. With at least one address per fetch and a store
  whose pages end for every bound address, \<^verbatim>\<open>dispatchTask\<close> does return.
\<close>

theorem dispatchTask_on_empty_queue:
  assumes q: "priorityToQueue w = Some q" and empty: "toItems q = []"
  shows "(dispatchTask e w index = Some r \<longrightarrow>
           (\<exists>k b w1 q1 res w2.
               (\<forall>j<k. FetchNewFromDb e (w\<lparr> lastAddrIndex := lastAddrIndex w + j * CONTRACT_TASK_SIZE e \<rparr>)
                        = Some (Inr (False, w\<lparr> lastAddrIndex := lastAddrIndex w + Suc j * CONTRACT_TASK_SIZE e \<rparr>)))
             \<and> FetchNewFromDb e (w\<lparr> lastAddrIndex := lastAddrIndex w + k * CONTRACT_TASK_SIZE e \<rparr>)
                  = Some (Inr (b, w1))
             \<and> priorityToQueue w1 = Some q1
             \<and> r = pop_task w1
             \<and> r = Inr (res, w2)
             \<and> (toItems q1 = [] \<longrightarrow> b \<and> res = None \<and> w2 = w1)
             \<and> (toItems q1 \<noteq> [] \<longrightarrow>
                  (\<exists>t item. t \<in> set (toItems q1) \<and> item \<in> set (tValue t) \<and> res = Some item
                     \<and> w2 = w1\<lparr> priorityToQueue := Some (q1\<lparr> toItems := remove1 t (toItems q1) \<rparr>) \<rparr>))))
       \<and> (0 < CONTRACT_TASK_SIZE e \<and> (\<forall>a \<in> set (contractAddressList w). \<exists>k. page_ends e a k) \<longrightarrow>
           (\<exists>res w2. dispatchTask e w index = Some (Inr (res, w2))))"
proof (intro conjI impI)
  have len0: "Len q = 0" using empty by (simp add: Len_def)
  have wfq: "wf_queue q" using empty by (simp add: wf_queue_def)
  assume d: "dispatchTask e w index = Some r"
  then obtain r1 where r1: "fetch_until e w = Some r1"
    using q len0 by (cases "fetch_until e w") (simp_all add: dispatchTask_def)
  let ?T = "CONTRACT_TASK_SIZE e" and ?s = "lastAddrIndex w"
  from fetch_until_result [OF r1 q] obtain k b w1 q1 where
    r: "\<forall>j<k. FetchNewFromDb e (w\<lparr> lastAddrIndex := ?s + j * ?T \<rparr>)
                = Some (Inr (False, w\<lparr> lastAddrIndex := ?s + Suc j * ?T \<rparr>))"
       "FetchNewFromDb e (w\<lparr> lastAddrIndex := ?s + k * ?T \<rparr>) = Some (Inr (b, w1))"
       "priorityToQueue w1 = Some q1" "b \<or> Len q1 \<noteq> 0"
       "\<exists>vs. q1 = insert_all e (evSnapshotHash (accEvent w)) vs q"
       "r1 = Inr w1"
    by blast
  have wf1: "wf_queue q1" using r(5) wfq by (auto simp: wf_insert_all)
  have rr: "r = pop_task w1"
    using d q len0 r1 r(6) by (simp add: dispatchTask_def)
  show "\<exists>k b w1 q1 res w2.
               (\<forall>j<k. FetchNewFromDb e (w\<lparr> lastAddrIndex := ?s + j * ?T \<rparr>)
                        = Some (Inr (False, w\<lparr> lastAddrIndex := ?s + Suc j * ?T \<rparr>)))
             \<and> FetchNewFromDb e (w\<lparr> lastAddrIndex := ?s + k * ?T \<rparr>) = Some (Inr (b, w1))
             \<and> priorityToQueue w1 = Some q1
             \<and> r = pop_task w1
             \<and> r = Inr (res, w2)
             \<and> (toItems q1 = [] \<longrightarrow> b \<and> res = None \<and> w2 = w1)
             \<and> (toItems q1 \<noteq> [] \<longrightarrow>
                  (\<exists>t item. t \<in> set (toItems q1) \<and> item \<in> set (tValue t) \<and> res = Some item
                     \<and> w2 = w1\<lparr> priorityToQueue := Some (q1\<lparr> toItems := remove1 t (toItems q1) \<rparr>) \<rparr>))"
  proof (cases "toItems q1 = []")
    case True
    then have "Len q1 = 0" by (simp add: Len_def)
    with r(4) have b by simp
    moreover have "pop_task w1 = Inr (None, w1)" using r(3) True by (rule pop_task_empty)
    ultimately show ?thesis
      using r(1,2,3) rr True
      by (intro exI [of _ k] exI [of _ b] exI [of _ w1] exI [of _ q1] exI [of _ None] exI [of _ w1])
         simp
  next
    case False
    from pop_task_nonempty [OF r(3) wf1 False] obtain t item where
      p: "t \<in> set (toItems q1)" "item \<in> set (tValue t)"
         "pop_task w1 = Inr (Some item, w1\<lparr> priorityToQueue := Some (q1\<lparr> toItems := remove1 t (toItems q1) \<rparr>) \<rparr>)"
      by blast
    show ?thesis
      using r(1,2,3) rr False p
      by (intro exI [of _ k] exI [of _ b] exI [of _ w1] exI [of _ q1] exI [of _ "Some item"]
            exI [of _ "w1\<lparr> priorityToQueue := Some (q1\<lparr> toItems := remove1 t (toItems q1) \<rparr>) \<rparr>"])
         auto
  qed
next
  assume "0 < CONTRACT_TASK_SIZE e \<and> (\<forall>a \<in> set (contractAddressList w). \<exists>k. page_ends e a k)"
  then have T: "0 < CONTRACT_TASK_SIZE e" and ends: "\<forall>a \<in> set (contractAddressList w). \<exists>k. page_ends e a k"
    by auto
  have len0: "Len q = 0" using empty by (simp add: Len_def)
  have wfq: "wf_queue q" using empty by (simp add: wf_queue_def)
  from fetch_until_returns [OF T ends q] obtain w1 q1 where
    r: "priorityToQueue w1 = Some q1"
       "\<exists>vs. q1 = insert_all e (evSnapshotHash (accEvent w)) vs q"
       "fetch_until e w = Some (Inr w1)"
    by blast
  have wf1: "wf_queue q1" using r(2) wfq by (auto simp: wf_insert_all)
  have d: "dispatchTask e w index = Some (pop_task w1)"
    using q len0 r(3) by (simp add: dispatchTask_def)
  show "\<exists>res w2. dispatchTask e w index = Some (Inr (res, w2))"
  proof (cases "toItems q1 = []")
    case True
    with r(1) have "pop_task w1 = Inr (None, w1)" by (rule pop_task_empty)
    with d show ?thesis by simp
  next
    case False
    from pop_task_nonempty [OF r(1) wf1 False] d show ?thesis by auto
  qed
qed

theorem dispatchTask_on_empty_queue_witness:
  "priorityToQueue (queued_worker empty_queue) = Some empty_queue
   \<and> toItems empty_queue = []
   \<and> 0 < CONTRACT_TASK_SIZE example_env
   \<and> contractAddressList (queued_worker empty_queue) = [''R1'', ''R2'']
   \<and> page_ends example_env ''R1'' 1 \<and> page_ends example_env ''R2'' 0
   \<and> dispatchTask example_env (queued_worker empty_queue) 0
       = Some (Inr (Some (from_item ''S2'' ''R1'' 8 1),
                    queued_worker \<lparr> toItems = [], seqCounter = 2 \<rparr>))
   \<and> 0 < CONTRACT_TASK_SIZE empty_one_task_env
   \<and> page_ends empty_one_task_env ''R1'' 0 \<and> page_ends empty_one_task_env ''R2'' 0
   \<and> FetchNewFromDb empty_one_task_env (queued_worker empty_queue)
       = Some (Inr (False, (queued_worker empty_queue)\<lparr> lastAddrIndex := 1 \<rparr>))
   \<and> FetchNewFromDb empty_one_task_env ((queued_worker empty_queue)\<lparr> lastAddrIndex := 1 \<rparr>)
       = Some (Inr (True, queued_worker empty_queue))
   \<and> dispatchTask empty_one_task_env (queued_worker empty_queue) 0
       = Some (Inr (None, queued_worker empty_queue))"
proof -
  have h1: "priorityToQueue (queued_worker empty_queue) = Some empty_queue"
    by (simp add: queued_worker_def)
  have h2: "toItems empty_queue = []" by (simp add: empty_queue_def)
  have h3: "0 < CONTRACT_TASK_SIZE example_env" by (simp add: example_env_def)
  have h3': "0 < CONTRACT_TASK_SIZE empty_one_task_env"
    by (simp add: empty_one_task_env_def empty_store_env_def example_env_def)
  have as: "contractAddressList (queued_worker empty_queue) = [''R1'', ''R2'']"
    by (simp add: queued_worker_def example_worker_def)
  have p1: "page_ends example_env a 1" for a by (simp add: page_ends_def example_env_def)
  have p0: "page_ends example_env ''R2'' 0" by (simp add: page_ends_def example_env_def)
  have p2: "page_ends empty_one_task_env a 0" for a
    by (simp add: page_ends_def empty_one_task_env_def empty_store_env_def example_env_def)
  have f1: "FetchNewFromDb example_env (queued_worker empty_queue) = Some (Inr (True, queued_worker two_items))"
    by (simp add: FetchNewFromDb_eq queued_worker_def example_env_def example_worker_def
          example_event_def page_loop.simps isInBlackList_def two_items_def InsertNew_def
          empty_queue_def Let_def blk_def)
  have d1: "dispatchTask example_env (queued_worker empty_queue) 0
       = Some (Inr (Some (from_item ''S2'' ''R1'' 8 1), queued_worker \<lparr> toItems = [], seqCounter = 2 \<rparr>))"
    by (simp add: dispatchTask_def h1 h2 Len_def fetch_until.simps f1)
       (simp add: queued_worker_def two_items_eq pop_task_def Len_def to_less_def from_less_def
          precedes_def from_item_def)
  have f2: "FetchNewFromDb empty_one_task_env (queued_worker empty_queue)
       = Some (Inr (False, (queued_worker empty_queue)\<lparr> lastAddrIndex := 1 \<rparr>))"
    by (simp add: FetchNewFromDb_eq queued_worker_def empty_one_task_env_def empty_store_env_def
          example_env_def example_worker_def page_loop.simps)
  have f3: "FetchNewFromDb empty_one_task_env ((queued_worker empty_queue)\<lparr> lastAddrIndex := 1 \<rparr>)
       = Some (Inr (True, queued_worker empty_queue))"
    by (simp add: FetchNewFromDb_eq queued_worker_def empty_one_task_env_def empty_store_env_def
          example_env_def example_worker_def page_loop.simps)
  have l0: "Len empty_queue = 0" by (simp add: Len_def empty_queue_def)
  have h1': "priorityToQueue ((queued_worker empty_queue)\<lparr> lastAddrIndex := 1 \<rparr>) = Some empty_queue"
    by (simp add: queued_worker_def)
  have fu2: "fetch_until empty_one_task_env ((queued_worker empty_queue)\<lparr> lastAddrIndex := 1 \<rparr>)
       = Some (Inr (queued_worker empty_queue))"
    by (subst fetch_until.simps)
       (simp only: f3 option.case sum.case prod.case if_True)
  have fu1: "fetch_until empty_one_task_env (queued_worker empty_queue)
       = Some (Inr (queued_worker empty_queue))"
    by (subst fetch_until.simps)
       (simp only: f2 h1' l0 fu2 option.case sum.case prod.case if_False simp_thms)
  have d2: "dispatchTask empty_one_task_env (queued_worker empty_queue) 0
       = Some (Inr (None, queued_worker empty_queue))"
    by (simp add: dispatchTask_def h1 l0 fu1 pop_task_def)
  from dispatchTask_on_empty_queue [OF h1 h2, of example_env 0
          "Inr (Some (from_item ''S2'' ''R1'' 8 1), queued_worker \<lparr> toItems = [], seqCounter = 2 \<rparr>)"]
       dispatchTask_on_empty_queue [OF h1 h2, of empty_one_task_env 0
          "Inr (None, queued_worker empty_queue)"]
       h1 h2 h3 h3' as p1 [of "''R1''"] p0 p2 [of "''R1''"] p2 [of "''R2''"] d1 f2 f3 d2
  show ?thesis by simp
qed

text \<open>
  C8. \<^verbatim>\<open>FetchNewFromDb\<close> scans the bound addresses from the saved cursor on, at most
  \<^verbatim>\<open>CONTRACT_TASK_SIZE\<close> of them. It returns \<open>true\<close> exactly when this scan reaches the
  end of the list, and then the cursor is set to 0; otherwise the cursor is moved past
  the addresses scanned, where the next call starts.
\<close>

theorem FetchNewFromDb_cursor:
  assumes "priorityToQueue w = Some q"
  shows "FetchNewFromDb e w =
     (case scan_addresses e (blackList w) (evSnapshotHash (accEvent w))
             (take (CONTRACT_TASK_SIZE e) (drop (lastAddrIndex w) (contractAddressList w))) q of
        None \<Rightarrow> None
      | Some q' \<Rightarrow>
          Some (Inr (length (contractAddressList w) \<le> lastAddrIndex w + CONTRACT_TASK_SIZE e,
                     w\<lparr> priorityToQueue := Some q',
                        lastAddrIndex := (if length (contractAddressList w) \<le> lastAddrIndex w + CONTRACT_TASK_SIZE e
                                          then 0 else lastAddrIndex w + CONTRACT_TASK_SIZE e) \<rparr>)))"
  using assms by (rule FetchNewFromDb_eq)

theorem FetchNewFromDb_cursor_witness:
  "priorityToQueue (queued_worker empty_queue) = Some empty_queue
   \<and> FetchNewFromDb one_task_env (queued_worker empty_queue)
       = Some (Inr (False, (queued_worker two_items)\<lparr> lastAddrIndex := 1 \<rparr>))
   \<and> priorityToQueue ((queued_worker two_items)\<lparr> lastAddrIndex := 1 \<rparr>) = Some two_items
   \<and> FetchNewFromDb one_task_env ((queued_worker two_items)\<lparr> lastAddrIndex := 1 \<rparr>)
       = Some (Inr (True, queued_worker two_items))"
proof -
  have h1: "priorityToQueue (queued_worker empty_queue) = Some empty_queue"
    by (simp add: queued_worker_def)
  have h2: "priorityToQueue ((queued_worker two_items)\<lparr> lastAddrIndex := 1 \<rparr>) = Some two_items"
    by (simp add: queued_worker_def)
  show ?thesis
    using h1 h2 FetchNewFromDb_cursor [OF h1, of one_task_env] FetchNewFromDb_cursor [OF h2, of one_task_env]
    by (simp add: queued_worker_def one_task_env_def example_env_def example_worker_def
          example_event_def page_loop.simps two_items_def InsertNew_def empty_queue_def Let_def blk_def
          isInBlackList_def)
qed

text \<open>
  C9. When the store answers a page request with an error or with a \<^verbatim>\<open>nil\<close> page, the
  paging of that address ends there with the queue as it was: nothing of that answer is
  inserted and no further page of the address is asked for. The scan goes on with the
  next address. The fetch itself has no error result: if the pages of every bound
  address end in this way, it returns its boolean.
\<close>

theorem fetch_store_error:
  "(page_ends e a k \<longrightarrow> page_loop e bl sh a c k q = Some q)
   \<and> (page_ends e a 0 \<longrightarrow> scan_addresses e bl sh (a # as) q = scan_addresses e bl sh as q)
   \<and> (priorityToQueue w = Some q0 \<and> (\<forall>a \<in> set (contractAddressList w). \<exists>k. page_ends e a k)
        \<longrightarrow> (\<exists>b w'. FetchNewFromDb e w = Some (Inr (b, w'))))"
proof (intro conjI impI)
  assume "page_ends e a k"
  then show "page_loop e bl sh a c k q = Some q"
    by (subst page_loop.simps)
       (cases "GetUnconfirmedBlocks e k 1 (CONTRACT_FETCH_SIZE e) a",
        auto simp: page_ends_def split: option.splits)
next
  assume "page_ends e a 0"
  then have "page_loop e bl sh a 0 0 q = Some q"
    by (subst page_loop.simps)
       (cases "GetUnconfirmedBlocks e 0 1 (CONTRACT_FETCH_SIZE e) a",
        auto simp: page_ends_def split: option.splits)
  then show "scan_addresses e bl sh (a # as) q = scan_addresses e bl sh as q" by simp
next
  assume "priorityToQueue w = Some q0 \<and> (\<forall>a \<in> set (contractAddressList w). \<exists>k. page_ends e a k)"
  then have a: "priorityToQueue w = Some q0" and b: "\<forall>a \<in> set (contractAddressList w). \<exists>k. page_ends e a k"
    by auto
  from FetchNewFromDb_returns [OF a b] show "\<exists>b w'. FetchNewFromDb e w = Some (Inr (b, w'))"
    by blast
qed

theorem fetch_store_error_witness:
  "page_ends error_env ''R1'' 0
   \<and> page_loop error_env Map.empty ''h'' ''R1'' 0 0 empty_queue = Some empty_queue
   \<and> scan_addresses error_env Map.empty ''h'' [''R1'', ''R2''] empty_queue
       = scan_addresses error_env Map.empty ''h'' [''R2''] empty_queue
   \<and> priorityToQueue (queued_worker empty_queue) = Some empty_queue
   \<and> contractAddressList (queued_worker empty_queue) = [''R1'', ''R2'']
   \<and> page_ends error_env ''R2'' 0
   \<and> FetchNewFromDb error_env (queued_worker empty_queue) = Some (Inr (True, queued_worker empty_queue))"
proof -
  have p: "page_ends error_env a 0" for a
    by (simp add: page_ends_def error_env_def example_env_def)
  have h1: "priorityToQueue (queued_worker empty_queue) = Some empty_queue"
    by (simp add: queued_worker_def)
  have h2: "\<forall>a \<in> set (contractAddressList (queued_worker empty_queue)). \<exists>k. page_ends error_env a k"
    using p by blast
  have f: "FetchNewFromDb error_env (queued_worker empty_queue) = Some (Inr (True, queued_worker empty_queue))"
    by (simp add: FetchNewFromDb_eq queued_worker_def error_env_def example_env_def
          example_worker_def page_loop.simps)
  have as: "contractAddressList (queued_worker empty_queue) = [''R1'', ''R2'']"
    by (simp add: queued_worker_def example_worker_def)
  from fetch_store_error [of error_env "''R1''" 0 Map.empty "''h''" 0 empty_queue "[''R2'']"
        "queued_worker empty_queue" empty_queue] p [of "''R1''"] p [of "''R2''"] h1 h2 as f
  show ?thesis by simp
qed

text \<open>
  C10. \<^verbatim>\<open>TryMakeConcernedError\<close> maps \<^verbatim>\<open>nil\<close> to \<open>(nil, false)\<close>; an error whose message
  is one of the three registered messages (which are pairwise different) to the
  registered \<^verbatim>\<open>JsonRpc2Error\<close> with its fixed code (4001 decrypt-key, 4002
  already-locked, 5001 balance-not-enough) and \<open>true\<close>; and every other error to
  itself and \<open>false\<close>.
\<close>

theorem TryMakeConcernedError_spec:
  assumes "distinct [msgDecryptKey ms, msgAlreadyLocked ms, msgBalanceNotEnough ms]"
  shows "TryMakeConcernedError ms None = (None, False)
       \<and> (Error e = msgDecryptKey ms \<longrightarrow>
           TryMakeConcernedError ms (Some e) = (Some (JsonRpc2Error (msgDecryptKey ms) 4001), True))
       \<and> (Error e = msgAlreadyLocked ms \<longrightarrow>
           TryMakeConcernedError ms (Some e) = (Some (JsonRpc2Error (msgAlreadyLocked ms) 4002), True))
       \<and> (Error e = msgBalanceNotEnough ms \<longrightarrow>
           TryMakeConcernedError ms (Some e) = (Some (JsonRpc2Error (msgBalanceNotEnough ms) 5001), True))
       \<and> (Error e \<notin> {msgDecryptKey ms, msgAlreadyLocked ms, msgBalanceNotEnough ms} \<longrightarrow>
           TryMakeConcernedError ms (Some e) = (Some e, False))"
  using assms
  by (auto simp: TryMakeConcernedError_def concernedErrorMap_def ErrDecryptKey_def
        AddressAlreadyUnLocked_def ErrBalanceNotEnough_def)

theorem TryMakeConcernedError_spec_witness:
  "distinct [msgDecryptKey example_messages, msgAlreadyLocked example_messages,
             msgBalanceNotEnough example_messages]
   \<and> TryMakeConcernedError example_messages None = (None, False)
   \<and> TryMakeConcernedError example_messages (Some (ErrorString ''error decrypting key''))
       = (Some (JsonRpc2Error ''error decrypting key'' 4001), True)
   \<and> TryMakeConcernedError example_messages (Some (JsonRpc2Error ''the address was previously unlocked'' 7))
       = (Some (JsonRpc2Error ''the address was previously unlocked'' 4002), True)
   \<and> TryMakeConcernedError example_messages (Some (ErrorString ''the balance is not enough''))
       = (Some (JsonRpc2Error ''the balance is not enough'' 5001), True)
   \<and> TryMakeConcernedError example_messages (Some (ErrorString ''not support this method''))
       = (Some (ErrorString ''not support this method''), False)"
proof -
  have d: "distinct [msgDecryptKey example_messages, msgAlreadyLocked example_messages,
             msgBalanceNotEnough example_messages]"
    by (simp add: example_messages_def)
  show ?thesis
    using d
      TryMakeConcernedError_spec [OF d, of "ErrorString ''error decrypting key''"]
      TryMakeConcernedError_spec [OF d, of "JsonRpc2Error ''the address was previously unlocked'' 7"]
      TryMakeConcernedError_spec [OF d, of "ErrorString ''the balance is not enough''"]
      TryMakeConcernedError_spec [OF d, of "ErrorString ''not support this method''"]
    by (simp add: example_messages_def)
qed

end
